theory Spec2Isabelle
  imports Main "HOL-Library.Word" "HOL-Library.Sublist"
begin

section \<open>JavaScript strings\<close>

text \<open>
  A JavaScript string is a sequence of UTF-16 code units; \<^verbatim>\<open>length\<close>, the regular
  expressions without the \<^verbatim>\<open>u\<close> flag and \<^verbatim>\<open>trim\<close> all work on code units.
  A string literal of the source is written \<open>js ''...''\<close>.
\<close>

type_synonym code_unit = "16 word"
type_synonym jsstring = "code_unit list"

definition js :: "string \<Rightarrow> jsstring" where
  "js s = map of_char s"

definition LF :: code_unit where "LF = 10"
definition CR :: code_unit where "CR = 13"
definition SPACE :: code_unit where "SPACE = 32"
definition COMMA :: code_unit where "COMMA = 44"
definition DOT :: code_unit where "DOT = 46"
definition COLON :: code_unit where "COLON = 58"
definition UNDERSCORE :: code_unit where "UNDERSCORE = 95"

text \<open>
  The class \<^verbatim>\<open>\s\<close> of a regular expression and the characters removed by
  \<^verbatim>\<open>String.prototype.trim\<close> are the same set: ECMAScript's WhiteSpace and
  LineTerminator code points (TAB, LF, VT, FF, CR, SP, NBSP, U+1680, U+2000 to U+200A,
  U+2028, U+2029, U+202F, U+205F, U+3000, U+FEFF).
\<close>

definition is_ws :: "code_unit \<Rightarrow> bool" where
  "is_ws c \<longleftrightarrow>
     c = 9 \<or> c = 10 \<or> c = 11 \<or> c = 12 \<or> c = 13 \<or> c = 32 \<or> c = 160 \<or> c = 5760 \<or>
     (8192 \<le> c \<and> c \<le> 8202) \<or> c = 8232 \<or> c = 8233 \<or> c = 8239 \<or> c = 8287 \<or>
     c = 12288 \<or> c = 65279"

text \<open>The class \<^verbatim>\<open>\d\<close> is the ten ASCII digits.\<close>

definition is_digit :: "code_unit \<Rightarrow> bool" where
  "is_digit c \<longleftrightarrow> 48 \<le> c \<and> c \<le> 57"

text \<open>\<^verbatim>\<open>String.prototype.trim\<close>: white space is removed from both ends.\<close>

definition trim :: "jsstring \<Rightarrow> jsstring" where
  "trim s = rev (dropWhile is_ws (rev (dropWhile is_ws s)))"

text \<open>
  Matching under the \<^verbatim>\<open>i\<close> flag compares canonical (upper-case) forms. A code unit
  at or above 128 is never canonicalised to an ASCII one, so against an ASCII pattern
  character only the two ASCII cases of a letter match.
\<close>

definition ascii_upper :: "code_unit \<Rightarrow> code_unit" where
  "ascii_upper c = (if 97 \<le> c \<and> c \<le> 122 then c - 32 else c)"

definition ci_eq :: "jsstring \<Rightarrow> jsstring \<Rightarrow> bool" where
  "ci_eq s p \<longleftrightarrow> map ascii_upper s = map ascii_upper p"

section \<open>Name normalizer (upload-captions.js, normalize)\<close>

text \<open>
  \<^verbatim>\<open>.replace(/\.(mp4|srt|MP4)$/i, "")\<close>: the pattern is anchored at the end of the
  string and has four characters, so it can only match the last four code units, which
  are then removed.
\<close>

definition has_ext :: "jsstring \<Rightarrow> bool" where
  "has_ext s \<longleftrightarrow>
     4 \<le> length s \<and>
     list_ex (\<lambda>e. ci_eq (drop (length s - 4) s) (DOT # e)) [js ''mp4'', js ''srt'', js ''MP4'']"

definition strip_ext :: "jsstring \<Rightarrow> jsstring" where
  "strip_ext s = (if has_ext s then take (length s - 4) s else s)"

text \<open>
  \<^verbatim>\<open>.replace(/[_.]$/g, "")\<close>: the only possible match is the last code unit; after
  it the search resumes at the end of the string, where the class cannot match. So one
  trailing underscore or period is removed, not a run of them.
\<close>

definition strip_trailing :: "jsstring \<Rightarrow> jsstring" where
  "strip_trailing s =
     (if s \<noteq> [] \<and> (last s = UNDERSCORE \<or> last s = DOT) then butlast s else s)"

text \<open>\<^verbatim>\<open>.replace(/\s+/g, " ")\<close>: every maximal run of white space becomes one space.\<close>

function collapse_ws :: "jsstring \<Rightarrow> jsstring" where
  "collapse_ws [] = []"
| "collapse_ws (c # cs) =
     (if is_ws c then SPACE # collapse_ws (dropWhile is_ws cs) else c # collapse_ws cs)"
  by pat_completeness auto
termination
  by (relation "measure length") (auto simp: less_Suc_eq_le length_dropWhile_le)

definition normalize_name :: "jsstring \<Rightarrow> jsstring" where
  "normalize_name name = trim (collapse_ws (strip_trailing (strip_ext name)))"

section \<open>Format transcoder (upload-captions.js, srtToVtt)\<close>

text \<open>
  \<^verbatim>\<open>.replace(/\r\n/g, "\n")\<close>: a left-to-right scan; a CR directly followed by LF
  becomes one LF and the scan goes on after the pair.
\<close>

fun replace_crlf :: "jsstring \<Rightarrow> jsstring" where
  "replace_crlf (a # b # cs) =
     (if a = CR \<and> b = LF then LF # replace_crlf cs else a # replace_crlf (b # cs))"
| "replace_crlf cs = cs"

text \<open>\<^verbatim>\<open>.replace(/\r/g, "\n")\<close>: every remaining CR becomes LF.\<close>

definition replace_cr :: "jsstring \<Rightarrow> jsstring" where
  "replace_cr s = map (\<lambda>c. if c = CR then LF else c) s"

text \<open>
  A pattern made of single-character classes matches at the start of a string when
  each class accepts the code unit at its position.
\<close>

fun matches_prefix :: "(code_unit \<Rightarrow> bool) list \<Rightarrow> jsstring \<Rightarrow> bool" where
  "matches_prefix [] s = True"
| "matches_prefix (p # ps) [] = False"
| "matches_prefix (p # ps) (c # cs) = (p c \<and> matches_prefix ps cs)"

text \<open>The pattern \<^verbatim>\<open>(\d{2}:\d{2}:\d{2}),(\d{3})\<close>: twelve code units.\<close>

definition timestamp_pattern :: "(code_unit \<Rightarrow> bool) list" where
  "timestamp_pattern =
     [is_digit, is_digit, (\<lambda>c. c = COLON), is_digit, is_digit, (\<lambda>c. c = COLON),
      is_digit, is_digit, (\<lambda>c. c = COMMA), is_digit, is_digit, is_digit]"

text \<open>
  \<^verbatim>\<open>.replace(/(\d{2}:\d{2}:\d{2}),(\d{3})/g, "$1.$2")\<close>: the scan tries the
  pattern at each position from the left; on a match it emits group 1, a period and
  group 2 and resumes after the twelve matched code units, otherwise it copies one
  code unit and moves on.
\<close>

function replace_timestamps :: "jsstring \<Rightarrow> jsstring" where
  "replace_timestamps [] = []"
| "replace_timestamps (c # cs) =
     (if matches_prefix timestamp_pattern (c # cs)
      then take 8 (c # cs) @ [DOT] @ take 3 (drop 9 (c # cs)) @
           replace_timestamps (drop 12 (c # cs))
      else c # replace_timestamps cs)"
  by pat_completeness auto
termination
  by (relation "measure length") auto

definition srtToVtt :: "jsstring \<Rightarrow> jsstring" where
  "srtToVtt srtContent =
     (let vtt = replace_timestamps (replace_cr (replace_crlf srtContent))
      in js ''WEBVTT'' @ [LF, LF] @ trim vtt @ [LF])"

section \<open>Data model\<close>

text \<open>A manifest row of the CSV parser: column name to value.\<close>

type_synonym row = "jsstring \<rightharpoonup> jsstring"

text \<open>\<^verbatim>\<open>row[key] || ""\<close>: a missing column reads as the empty string.\<close>

definition column :: "row \<Rightarrow> jsstring \<Rightarrow> jsstring" where
  "column r k = (case r k of None \<Rightarrow> [] | Some v \<Rightarrow> v)"

text \<open>The object pushed by \<^verbatim>\<open>extractMigratableVideos\<close>.\<close>

record video =
  v_name :: jsstring
  v_url :: jsstring
  v_projectId :: jsstring
  v_spotlightrId :: jsstring
  v_hlsUrl :: jsstring

text \<open>
  One object of \<^verbatim>\<open>migration-results.json\<close>. \<^verbatim>\<open>cloudflareUid\<close> is only
  written on success and \<^verbatim>\<open>error\<close> only on failure.
\<close>

record ledger_entry =
  spotlightrId :: jsstring
  name :: jsstring
  projectId :: jsstring
  sourceUrl :: jsstring
  cloudflareUid :: "jsstring option"
  success :: bool
  error :: "jsstring option"
  timestamp :: jsstring

text \<open>
  What awaiting a remote call yields: the parsed response body with its
  \<^verbatim>\<open>success\<close> flag, \<^verbatim>\<open>result.uid\<close> and the \<^verbatim>\<open>message\<close>s of
  \<^verbatim>\<open>errors\<close> (each absent when the body has no such member), or an exception with
  its message and stack.
\<close>

datatype response =
  Response (r_success: bool) (r_uid: "jsstring option") (r_errors: "jsstring list option")
| Thrown (t_message: jsstring) (t_stack: jsstring)

text \<open>The state of \<^verbatim>\<open>migration-results.json\<close> on disk.\<close>

datatype ledger_file =
  NoFile
| Unparsable jsstring
| NotArray jsstring
| Entries "ledger_entry list"

text \<open>The state of the CSV export on disk.\<close>

datatype manifest_file = NoManifest | BadManifest | Manifest "row list"

text \<open>
  Everything the two tools read or change outside their own variables: the files, and
  the invocations of \<^verbatim>\<open>uploadToCloudflare\<close> and \<^verbatim>\<open>uploadCaption\<close> so far
  (argument lists, in call order). The log file is kept as the list of chunks written
  to it.
\<close>

record world =
  manifest :: manifest_file
  results_file :: ledger_file
  caption_dir :: "jsstring list option"
  srt_files :: "jsstring \<rightharpoonup> jsstring"
  log_file :: "jsstring list option"
  submit_calls :: "video list"
  caption_calls :: "(jsstring option \<times> jsstring \<times> jsstring) list"

text \<open>
  What the programs cannot compute by themselves: the answers of the two remote
  endpoints (which may depend on the calls made before), the clock behind
  \<^verbatim>\<open>new Date().toISOString()\<close>, the message and stack of a failed file read, and
  \<^verbatim>\<open>JSON.stringify\<close> of the parts of a response.
\<close>

record remote =
  copy_api :: "video list \<Rightarrow> video \<Rightarrow> response"
  caption_api :: "nat \<Rightarrow> jsstring \<Rightarrow> jsstring \<Rightarrow> jsstring \<Rightarrow> response"
  clock :: "nat \<Rightarrow> jsstring"
  read_error :: "jsstring \<Rightarrow> jsstring \<times> jsstring"
  stringify_errors :: "response \<Rightarrow> jsstring"
  stringify_messages :: "response \<Rightarrow> jsstring"
  stringify_response :: "response \<Rightarrow> jsstring"

text \<open>The environment variables and command-line flags both tools resolve at start.\<close>

record config =
  CLOUDFLARE_API_TOKEN :: "jsstring option"
  CLOUDFLARE_ACCOUNT_ID :: "jsstring option"
  DRY_RUN :: bool
  FILTER_PROJECT :: "jsstring option"
  LANGUAGE :: jsstring

text \<open>Truthiness of a value that is a string, \<^verbatim>\<open>undefined\<close> or \<^verbatim>\<open>null\<close>.\<close>

definition truthy :: "jsstring option \<Rightarrow> bool" where
  "truthy v = (case v of None \<Rightarrow> False | Some s \<Rightarrow> s \<noteq> [])"

text \<open>String concatenation with a value that may be \<^verbatim>\<open>undefined\<close>.\<close>

definition to_string :: "jsstring option \<Rightarrow> jsstring" where
  "to_string v = (case v of None \<Rightarrow> js ''undefined'' | Some s \<Rightarrow> s)"

text \<open>Every way a run ends through \<^verbatim>\<open>process.exit(1)\<close>.\<close>

datatype fatal =
  ConfigurationError
| ManifestNotFound
| ManifestUnreadable
| LedgerNotFound
| LedgerSyntaxError
| LedgerTypeError
| CaptionDirectoryNotFound

section \<open>Migration engine (migrate.js)\<close>

text \<open>
  \<^verbatim>\<open>loadPreviousResults\<close> returns whatever \<^verbatim>\<open>JSON.parse\<close> produced, or
  \<^verbatim>\<open>[]\<close> when the file is absent or the parse throws. Its value is given here in
  the type of file states: \<open>Entries es\<close> for an array and \<open>NotArray t\<close> for any
  other JSON value, on which \<^verbatim>\<open>previousResults.filter\<close> later throws a TypeError.
\<close>

definition loadPreviousResults :: "ledger_file \<Rightarrow> ledger_file" where
  "loadPreviousResults f =
     (case f of
        NoFile \<Rightarrow> Entries []
      | Unparsable _ \<Rightarrow> Entries []
      | NotArray t \<Rightarrow> NotArray t
      | Entries es \<Rightarrow> Entries es)"

definition saveMigrationResults :: "ledger_entry list \<Rightarrow> world \<Rightarrow> world" where
  "saveMigrationResults res w = w\<lparr>results_file := Entries res\<rparr>"

fun extractMigratableVideos :: "config \<Rightarrow> row list \<Rightarrow> video list" where
  "extractMigratableVideos cfg [] = []"
| "extractMigratableVideos cfg (r # records) =
     (let videoName = column r (js ''video'');
          originalUrl = column r (js ''original file URL'');
          projectId = column r (js ''project'');
          spotlightrId = column r (js ''id'');
          hlsUrl = column r (js ''URL'')
      in if originalUrl = [] \<or> originalUrl = js ''DELETED''
         then extractMigratableVideos cfg records
         else if truthy (FILTER_PROJECT cfg) \<and> Some projectId \<noteq> FILTER_PROJECT cfg
         then extractMigratableVideos cfg records
         else \<lparr>v_name = videoName, v_url = originalUrl, v_projectId = projectId,
                v_spotlightrId = spotlightrId, v_hlsUrl = hlsUrl\<rparr>
              # extractMigratableVideos cfg records)"

text \<open>\<^verbatim>\<open>Array.prototype.join(", ")\<close>.\<close>

fun join_comma :: "jsstring list \<Rightarrow> jsstring" where
  "join_comma [] = []"
| "join_comma [m] = m"
| "join_comma (m # ms) = m @ js '', '' @ join_comma ms"

text \<open>\<^verbatim>\<open>response.result?.uid || "unknown"\<close>.\<close>

definition cfUid_of :: "jsstring option \<Rightarrow> jsstring" where
  "cfUid_of uid =
     (case uid of None \<Rightarrow> js ''unknown'' | Some u \<Rightarrow> if u = [] then js ''unknown'' else u)"

text \<open>\<^verbatim>\<open>response.errors?.map((e) => e.message).join(", ") || "Unknown error"\<close>.\<close>

definition errorMsg_of :: "jsstring list option \<Rightarrow> jsstring" where
  "errorMsg_of errs =
     (case errs of
        None \<Rightarrow> js ''Unknown error''
      | Some ms \<Rightarrow> if join_comma ms = [] then js ''Unknown error'' else join_comma ms)"

definition success_entry :: "video \<Rightarrow> jsstring \<Rightarrow> jsstring \<Rightarrow> ledger_entry" where
  "success_entry v cfUid ts =
     \<lparr>spotlightrId = v_spotlightrId v, name = v_name v, projectId = v_projectId v,
      sourceUrl = v_url v, cloudflareUid = Some cfUid, success = True, error = None,
      timestamp = ts\<rparr>"

definition failure_entry :: "video \<Rightarrow> jsstring \<Rightarrow> jsstring \<Rightarrow> ledger_entry" where
  "failure_entry v msg ts =
     \<lparr>spotlightrId = v_spotlightrId v, name = v_name v, projectId = v_projectId v,
      sourceUrl = v_url v, cloudflareUid = None, success = False, error = Some msg,
      timestamp = ts\<rparr>"

text \<open>The variables of \<^verbatim>\<open>main\<close> that the loop changes, and the world.\<close>

record run_state =
  rs_world :: world
  results :: "ledger_entry list"
  successCount :: nat
  skipCount :: nat
  failCount :: nat

text \<open>
  \<^verbatim>\<open>uploadToCloudflare(video)\<close>: the call is added to the trace and the endpoint
  answers.
\<close>

definition uploadToCloudflare :: "remote \<Rightarrow> video \<Rightarrow> world \<Rightarrow> response \<times> world" where
  "uploadToCloudflare rem v w =
     (copy_api rem (submit_calls w) v, w\<lparr>submit_calls := submit_calls w @ [v]\<rparr>)"

text \<open>
  The body of the \<^verbatim>\<open>try\<close> statement with its \<^verbatim>\<open>catch\<close>, followed by
  \<^verbatim>\<open>saveMigrationResults(results)\<close>.
\<close>

definition upload_and_record :: "remote \<Rightarrow> video \<Rightarrow> run_state \<Rightarrow> run_state" where
  "upload_and_record rem v st =
     (let (resp, w1) = uploadToCloudflare rem v (rs_world st);
          ts = clock rem (length (submit_calls w1));
          st1 = (case resp of
                   Response ok uid errs \<Rightarrow>
                     if ok
                     then st\<lparr>results := results st @ [success_entry v (cfUid_of uid) ts],
                             successCount := successCount st + 1\<rparr>
                     else st\<lparr>results := results st @ [failure_entry v (errorMsg_of errs) ts],
                             failCount := failCount st + 1\<rparr>
                 | Thrown msg stack \<Rightarrow>
                     st\<lparr>results := results st @ [failure_entry v msg ts],
                        failCount := failCount st + 1\<rparr>)
      in st1\<lparr>rs_world := saveMigrationResults (results st1) w1\<rparr>)"

text \<open>
  The \<^verbatim>\<open>for\<close> loop of \<^verbatim>\<open>main\<close>. \<open>alreadyMigrated\<close> is the set built before
  the loop; the loop never adds to it. The delay between items does not change any
  variable and is left out.
\<close>

fun migrate_loop :: "config \<Rightarrow> remote \<Rightarrow> jsstring set \<Rightarrow> video list \<Rightarrow> run_state \<Rightarrow> run_state" where
  "migrate_loop cfg rem alreadyMigrated [] st = st"
| "migrate_loop cfg rem alreadyMigrated (v # videos) st =
     (if v_spotlightrId v \<in> alreadyMigrated
      then migrate_loop cfg rem alreadyMigrated videos (st\<lparr>skipCount := skipCount st + 1\<rparr>)
      else if DRY_RUN cfg
      then migrate_loop cfg rem alreadyMigrated videos (st\<lparr>successCount := successCount st + 1\<rparr>)
      else migrate_loop cfg rem alreadyMigrated videos (upload_and_record rem v st))"

text \<open>The four numbers of the final summary.\<close>

record summary =
  s_success :: nat
  s_skipped :: nat
  s_failed :: nat
  s_total :: nat

definition alreadyMigrated_of :: "ledger_entry list \<Rightarrow> jsstring set" where
  "alreadyMigrated_of previousResults = set (map spotlightrId (filter success previousResults))"

text \<open>
  \<^verbatim>\<open>main\<close> of migrate.js, with the check of the credentials that runs when the
  module is loaded. The result is the world after the run and either the fatal error
  or the printed summary (\<open>None\<close> when the run stops at "Nothing to migrate").
\<close>

definition migrate_main :: "config \<Rightarrow> remote \<Rightarrow> world \<Rightarrow> world \<times> (fatal + summary option)" where
  "migrate_main cfg rem w =
     (if \<not> truthy (CLOUDFLARE_API_TOKEN cfg) \<or> \<not> truthy (CLOUDFLARE_ACCOUNT_ID cfg)
      then (w, Inl ConfigurationError)
      else case manifest w of
        NoManifest \<Rightarrow> (w, Inl ManifestNotFound)
      | BadManifest \<Rightarrow> (w, Inl ManifestUnreadable)
      | Manifest records \<Rightarrow>
          let videos = extractMigratableVideos cfg records
          in if videos = [] then (w, Inr None)
             else case loadPreviousResults (results_file w) of
               Entries previousResults \<Rightarrow>
                 let st = migrate_loop cfg rem (alreadyMigrated_of previousResults) videos
                            \<lparr>rs_world = w, results = previousResults,
                             successCount = 0, skipCount = 0, failCount = 0\<rparr>
                 in (rs_world st,
                     Inr (Some \<lparr>s_success = successCount st, s_skipped = skipCount st,
                                s_failed = failCount st, s_total = length videos\<rparr>))
             | _ \<Rightarrow> (w, Inl LedgerTypeError))"

section \<open>Caption matcher and uploader (upload-captions.js)\<close>

text \<open>
  \<^verbatim>\<open>loadMigrationResults\<close>: a missing file ends the process, and an exception of
  \<^verbatim>\<open>JSON.parse\<close> or of \<^verbatim>\<open>results.filter\<close> reaches the handler of
  \<^verbatim>\<open>main().catch\<close>, which ends the process too.
\<close>

definition loadMigrationResults :: "ledger_file \<Rightarrow> fatal + ledger_entry list" where
  "loadMigrationResults f =
     (case f of
        NoFile \<Rightarrow> Inl LedgerNotFound
      | Unparsable _ \<Rightarrow> Inl LedgerSyntaxError
      | NotArray _ \<Rightarrow> Inl LedgerTypeError
      | Entries es \<Rightarrow> Inr (filter success es))"

text \<open>\<^verbatim>\<open>f.toLowerCase().endsWith(".srt")\<close>.\<close>

definition ends_with_srt :: "jsstring \<Rightarrow> bool" where
  "ends_with_srt f \<longleftrightarrow> 4 \<le> length f \<and> ci_eq (drop (length f - 4) f) (js ''.srt'')"

definition loadSrtFiles :: "jsstring list option \<Rightarrow> fatal + jsstring list" where
  "loadSrtFiles d =
     (case d of
        None \<Rightarrow> Inl CaptionDirectoryNotFound
      | Some listing \<Rightarrow> Inr (filter ends_with_srt listing))"

text \<open>The object pushed to \<^verbatim>\<open>matched\<close>.\<close>

record caption_match =
  m_srtFile :: jsstring
  m_videoName :: jsstring
  m_cloudflareUid :: "jsstring option"
  m_spotlightrId :: jsstring

record match_result =
  matched :: "caption_match list"
  unmatched :: "jsstring list"

text \<open>The first loop of \<^verbatim>\<open>matchCaptions\<close>: it fills the Map \<^verbatim>\<open>nameToVideo\<close>.\<close>

fun build_lookup :: "ledger_entry list \<Rightarrow> (jsstring \<rightharpoonup> ledger_entry) \<Rightarrow> (jsstring \<rightharpoonup> ledger_entry)" where
  "build_lookup [] nameToVideo = nameToVideo"
| "build_lookup (result # rest) nameToVideo =
     (let key = normalize_name (name result)
      in if nameToVideo key = None
         then build_lookup rest (nameToVideo(key \<mapsto> result))
         else build_lookup rest nameToVideo)"

text \<open>The second loop: an entry object is always truthy, so only a missing key is unmatched.\<close>

fun match_loop :: "(jsstring \<rightharpoonup> ledger_entry) \<Rightarrow> jsstring list \<Rightarrow> match_result \<Rightarrow> match_result" where
  "match_loop nameToVideo [] acc = acc"
| "match_loop nameToVideo (srtFile # rest) acc =
     (case nameToVideo (normalize_name srtFile) of
        Some v \<Rightarrow>
          match_loop nameToVideo rest
            (acc\<lparr>matched := matched acc @
                   [\<lparr>m_srtFile = srtFile, m_videoName = name v,
                     m_cloudflareUid = cloudflareUid v, m_spotlightrId = spotlightrId v\<rparr>]\<rparr>)
      | None \<Rightarrow> match_loop nameToVideo rest (acc\<lparr>unmatched := unmatched acc @ [srtFile]\<rparr>))"

definition matchCaptions :: "jsstring list \<Rightarrow> ledger_entry list \<Rightarrow> match_result" where
  "matchCaptions srtFiles migrationResults =
     match_loop (build_lookup migrationResults Map.empty) srtFiles
       \<lparr>matched = [], unmatched = []\<rparr>"

text \<open>\<^verbatim>\<open>appendFileSync(LOG_FILE, line + "\n")\<close>; a missing file is created.\<close>

definition log :: "jsstring \<Rightarrow> world \<Rightarrow> world" where
  "log line w =
     w\<lparr>log_file := Some ((case log_file w of None \<Rightarrow> [] | Some ls \<Rightarrow> ls) @ [line])\<rparr>"

fun log_all :: "jsstring list \<Rightarrow> world \<Rightarrow> world" where
  "log_all [] w = w"
| "log_all (l # ls) w = log_all ls (log l w)"

text \<open>A number in a string concatenation: its decimal digits.\<close>

fun show_nat :: "nat \<Rightarrow> jsstring" where
  "show_nat n = (if n < 10 then [48 + of_nat n] else show_nat (n div 10) @ [48 + of_nat (n mod 10)])"

declare show_nat.simps [simp del]

text \<open>\<^verbatim>\<open>basename(srtFilePath).replace(/\.srt$/i, ".vtt")\<close>.\<close>

definition basename :: "jsstring \<Rightarrow> jsstring" where
  "basename p = rev (takeWhile (\<lambda>c. c \<noteq> 47) (rev p))"

definition vtt_filename :: "jsstring \<Rightarrow> jsstring" where
  "vtt_filename p =
     (let b = basename p
      in if ends_with_srt b then take (length b - 4) b @ js ''.vtt'' else b)"

text \<open>
  \<^verbatim>\<open>uploadCaption\<close>: it reads the file (a failed read throws), converts the text
  and sends it. The invocation is added to the trace.
\<close>

definition uploadCaption ::
  "remote \<Rightarrow> jsstring option \<Rightarrow> jsstring \<Rightarrow> jsstring \<Rightarrow> world \<Rightarrow> response \<times> world" where
  "uploadCaption rem uid srtFilePath language w =
     (let w1 = w\<lparr>caption_calls := caption_calls w @ [(uid, srtFilePath, language)]\<rparr>
      in case srt_files w srtFilePath of
           None \<Rightarrow> (Thrown (fst (read_error rem srtFilePath)) (snd (read_error rem srtFilePath)), w1)
         | Some srtContent \<Rightarrow>
             (caption_api rem (length (caption_calls w))
                (js ''/stream/'' @ to_string uid @ js ''/captions/'' @ language)
                (vtt_filename srtFilePath) (srtToVtt srtContent), w1))"

record caption_state =
  cs_world :: world
  cs_successCount :: nat
  cs_failCount :: nat

text \<open>The body of the \<^verbatim>\<open>try\<close> statement of the upload loop with its \<^verbatim>\<open>catch\<close>.\<close>

definition upload_and_log :: "config \<Rightarrow> remote \<Rightarrow> caption_match \<Rightarrow> caption_state \<Rightarrow> caption_state" where
  "upload_and_log cfg rem m st =
     (let srtPath = js ''caption/'' @ m_srtFile m;
          uid = to_string (m_cloudflareUid m);
          (resp, w1) = uploadCaption rem (m_cloudflareUid m) srtPath (LANGUAGE cfg) (cs_world st)
      in case resp of
           Response ok u errs \<Rightarrow>
             if ok
             then st\<lparr>cs_world := log (js ''[OK] '' @ m_srtFile m @ js '' -> '' @ uid) w1,
                     cs_successCount := cs_successCount st + 1\<rparr>
             else st\<lparr>cs_world :=
                       log_all
                         [js ''[FAIL] '' @ m_srtFile m @ js '' -> '' @ uid,
                          js ''  Video name : '' @ m_videoName m,
                          js ''  SRT path   : '' @ srtPath,
                          js ''  Error      : '' @ errorMsg_of errs,
                          js ''  Errors     : '' @ stringify_errors rem resp,
                          js ''  Messages   : '' @ stringify_messages rem resp,
                          js ''  Full resp  : '' @ stringify_response rem resp,
                          js ''''] w1,
                     cs_failCount := cs_failCount st + 1\<rparr>
         | Thrown msg stack \<Rightarrow>
             st\<lparr>cs_world :=
                  log_all
                    [js ''[ERROR] '' @ m_srtFile m @ js '' -> '' @ uid,
                     js ''  Video name : '' @ m_videoName m,
                     js ''  Exception  : '' @ msg,
                     js ''  Stack      : '' @ stack,
                     js ''''] w1,
                cs_failCount := cs_failCount st + 1\<rparr>)"

fun caption_loop :: "config \<Rightarrow> remote \<Rightarrow> caption_match list \<Rightarrow> caption_state \<Rightarrow> caption_state" where
  "caption_loop cfg rem [] st = st"
| "caption_loop cfg rem (m # ms) st =
     (if DRY_RUN cfg
      then caption_loop cfg rem ms (st\<lparr>cs_successCount := cs_successCount st + 1\<rparr>)
      else caption_loop cfg rem ms (upload_and_log cfg rem m st))"

record caption_summary =
  c_success :: nat
  c_failed :: nat
  c_unmatched :: nat
  c_total :: nat

text \<open>
  The block "Initialise log file" of \<^verbatim>\<open>main\<close>: \<^verbatim>\<open>writeFileSync\<close> replaces the
  log file by its header (8212 is the dash of the header), then two lines are appended.
\<close>

definition init_log :: "config \<Rightarrow> remote \<Rightarrow> world \<Rightarrow> world" where
  "init_log cfg rem w =
     (if \<not> DRY_RUN cfg
      then log_all [js ''Language: '' @ LANGUAGE cfg, js '''']
             (w\<lparr>log_file :=
                  Some [js ''=== Caption Upload Log '' @ [8212] @ js '' '' @ clock rem 0 @ js '' ==='']\<rparr>)
      else w)"

text \<open>The block after the console summary: the summary lines of the log.\<close>

definition log_summary :: "config \<Rightarrow> nat \<Rightarrow> nat \<Rightarrow> jsstring list \<Rightarrow> world \<Rightarrow> world" where
  "log_summary cfg successes failures unmatched_files w =
     (if \<not> DRY_RUN cfg
      then log_all
             ([js ''--- Summary ---'',
               js ''Success   : '' @ show_nat successes,
               js ''Failed    : '' @ show_nat failures,
               js ''Unmatched : '' @ show_nat (length unmatched_files)]
              @ map (\<lambda>f. js ''  - '' @ f) unmatched_files @ [js '''']) w
      else w)"

text \<open>
  \<^verbatim>\<open>main\<close> of upload-captions.js, with the check of the credentials that runs when
  the module is loaded. The result is the world after the run and either the fatal
  error or the printed summary (\<open>None\<close> when the run stops at "Nothing to upload").
\<close>

definition captions_main ::
  "config \<Rightarrow> remote \<Rightarrow> world \<Rightarrow> world \<times> (fatal + caption_summary option)" where
  "captions_main cfg rem w =
     (if \<not> truthy (CLOUDFLARE_API_TOKEN cfg) \<or> \<not> truthy (CLOUDFLARE_ACCOUNT_ID cfg)
      then (w, Inl ConfigurationError)
      else
        let w1 = init_log cfg rem w
        in case loadMigrationResults (results_file w1) of
             Inl e \<Rightarrow> (w1, Inl e)
           | Inr migrationResults \<Rightarrow>
               (case loadSrtFiles (caption_dir w1) of
                  Inl e \<Rightarrow> (w1, Inl e)
                | Inr srtFiles \<Rightarrow>
                    let mr = matchCaptions srtFiles migrationResults
                    in if matched mr = [] then (w1, Inr None)
                       else
                         let st = caption_loop cfg rem (matched mr)
                                    \<lparr>cs_world = w1, cs_successCount = 0, cs_failCount = 0\<rparr>
                         in (log_summary cfg (cs_successCount st) (cs_failCount st)
                               (unmatched mr) (cs_world st),
                             Inr (Some \<lparr>c_success = cs_successCount st,
                                        c_failed = cs_failCount st,
                                        c_unmatched = length (unmatched mr),
                                        c_total = length srtFiles\<rparr>))))"

section \<open>Notions used in the statements\<close>

text \<open>
  A string is white-space normal when every white-space code unit in it is a space and
  no two of them are adjacent: the shape \<open>collapse_ws\<close> produces.
\<close>

definition ws_pair :: "code_unit \<Rightarrow> code_unit \<Rightarrow> bool" where
  "ws_pair a b \<longleftrightarrow> \<not> (is_ws a \<and> is_ws b)"

definition ws_normal :: "jsstring \<Rightarrow> bool" where
  "ws_normal s \<longleftrightarrow> (\<forall>c \<in> set s. is_ws c \<longrightarrow> c = SPACE) \<and> successively ws_pair s"

text \<open>A name still ends in one of the separators that \<open>strip_trailing\<close> removes.\<close>

definition ends_in_separator :: "jsstring \<Rightarrow> bool" where
  "ends_in_separator s \<longleftrightarrow> s \<noteq> [] \<and> (last s = UNDERSCORE \<or> last s = DOT)"

text \<open>
  Line endings as the spec words them: in one pass, a CR LF pair and a lone CR each
  become a single LF.
\<close>

fun normalize_eol :: "jsstring \<Rightarrow> jsstring" where
  "normalize_eol (a # b # cs) =
     (if a = CR \<and> b = LF then LF # normalize_eol cs
      else if a = CR then LF # normalize_eol (b # cs)
      else a # normalize_eol (b # cs))"
| "normalize_eol [a] = (if a = CR then [LF] else [a])"
| "normalize_eol [] = []"

text \<open>The pattern \<^verbatim>\<open>HH:MM:SS,mmm\<close> occurs in \<open>s\<close> at position \<open>i\<close>.\<close>

definition timestamp_at :: "jsstring \<Rightarrow> nat \<Rightarrow> bool" where
  "timestamp_at s i \<longleftrightarrow> matches_prefix timestamp_pattern (drop i s)"

text \<open>What the timestamp rewrite may do to one code unit: keep it, or turn a comma into a period.\<close>

definition comma_to_dot :: "code_unit \<Rightarrow> code_unit \<Rightarrow> bool" where
  "comma_to_dot a b \<longleftrightarrow> b = a \<or> (a = COMMA \<and> b = DOT)"

text \<open>The text ends with a line feed that no other line feed precedes.\<close>

definition ends_with_one_newline :: "jsstring \<Rightarrow> bool" where
  "ends_with_one_newline s \<longleftrightarrow>
     s \<noteq> [] \<and> last s = LF \<and> (butlast s = [] \<or> last (butlast s) \<noteq> LF)"

text \<open>No occurrence that starts earlier reaches into the one at \<open>i\<close>.\<close>

definition clear_before :: "jsstring \<Rightarrow> nat \<Rightarrow> bool" where
  "clear_before s i \<longleftrightarrow> (\<forall>j < i. timestamp_at s j \<longrightarrow> j + 12 \<le> i)"

text \<open>The subtitle text of the spec's transcoder example, and a text with two timestamps run together.\<close>

definition srt_example :: jsstring where
  "srt_example = js ''00:00:08,667 --> 00:00:10,001'' @ [LF] @ js ''Hello''"

definition srt_overlap :: jsstring where
  "srt_overlap = js ''00:00:00,123:45:67,890''"

text \<open>The spec's collision policy: the first entry of the sequence whose normalized name is the key.\<close>

definition first_match :: "ledger_entry list \<Rightarrow> jsstring \<Rightarrow> ledger_entry option" where
  "first_match es k = find (\<lambda>e. normalize_name (name e) = k) es"

text \<open>The pairing of a caption file with a ledger entry.\<close>

definition match_of :: "jsstring \<Rightarrow> ledger_entry \<Rightarrow> caption_match" where
  "match_of f e =
     \<lparr>m_srtFile = f, m_videoName = name e, m_cloudflareUid = cloudflareUid e,
      m_spotlightrId = spotlightrId e\<rparr>"

definition matches_for :: "ledger_entry list \<Rightarrow> jsstring \<Rightarrow> caption_match list" where
  "matches_for es f =
     (case first_match es (normalize_name f) of None \<Rightarrow> [] | Some e \<Rightarrow> [match_of f e])"

text \<open>Two successful ledger entries with the same name, as in the spec's collision example.\<close>

definition intro_first :: ledger_entry where
  "intro_first =
     \<lparr>spotlightrId = js ''1'', name = js ''Intro'', projectId = js ''10'',
      sourceUrl = js ''http://x/a.mp4'', cloudflareUid = Some (js ''u1''), success = True,
      error = None, timestamp = js ''2025-01-15T10:30:00.000Z''\<rparr>"

definition intro_second :: ledger_entry where
  "intro_second =
     \<lparr>spotlightrId = js ''2'', name = js ''Intro'', projectId = js ''10'',
      sourceUrl = js ''http://x/b.mp4'', cloudflareUid = Some (js ''u2''), success = True,
      error = None, timestamp = js ''2025-01-15T10:31:00.000Z''\<rparr>"

text \<open>A caption folder listing with one file that matches nothing.\<close>

definition caption_listing :: "jsstring list" where
  "caption_listing = [js ''Outro.srt'', js ''Intro.srt'', js ''Intro .srt'']"

text \<open>The eligible records that a run submits: those whose id is not in the set built before the loop.\<close>

definition pending :: "jsstring set \<Rightarrow> video list \<Rightarrow> video list" where
  "pending A vs = filter (\<lambda>v. v_spotlightrId v \<notin> A) vs"

text \<open>The eligible records that a run skips as already migrated.\<close>

definition completed :: "jsstring set \<Rightarrow> video list \<Rightarrow> video list" where
  "completed A vs = filter (\<lambda>v. v_spotlightrId v \<in> A) vs"

text \<open>Both credentials are present, so the check made when the module is loaded passes.\<close>

definition credentials_ok :: "config \<Rightarrow> bool" where
  "credentials_ok cfg \<longleftrightarrow> truthy (CLOUDFLARE_API_TOKEN cfg) \<and> truthy (CLOUDFLARE_ACCOUNT_ID cfg)"

text \<open>The values of the loop variables when the loop of \<^verbatim>\<open>main\<close> starts.\<close>

definition initial_state :: "world \<Rightarrow> ledger_entry list \<Rightarrow> run_state" where
  "initial_state w previousResults =
     \<lparr>rs_world = w, results = previousResults, successCount = 0, skipCount = 0, failCount = 0\<rparr>"


text \<open>The invocations of \<^verbatim>\<open>uploadToCloudflare\<close> that a run adds to the trace.\<close>

definition new_calls :: "world \<Rightarrow> world \<Rightarrow> video list" where
  "new_calls w w' = drop (length (submit_calls w)) (submit_calls w')"

text \<open>
  Concrete inputs. The configuration of a normal run and of a dry run; an endpoint
  that accepts every copy with the uid \<open>u1\<close> and one that rejects every copy; the two
  manifest rows of the spec's end-to-end scenario, and a manifest with the same id
  twice; worlds with no ledger, with an unparsable ledger, and with a ledger holding
  one failed entry for id 1.
\<close>

definition cfg_live :: config where
  "cfg_live =
     \<lparr>CLOUDFLARE_API_TOKEN = Some (js ''token''), CLOUDFLARE_ACCOUNT_ID = Some (js ''account''),
      DRY_RUN = False, FILTER_PROJECT = None, LANGUAGE = js ''he''\<rparr>"

definition cfg_dry :: config where
  "cfg_dry = cfg_live\<lparr>DRY_RUN := True\<rparr>"

definition remote_ok :: remote where
  "remote_ok =
     \<lparr>copy_api = (\<lambda>calls v. Response True (Some (js ''u1'')) None),
      caption_api = (\<lambda>n path filename content. Response True None None),
      clock = (\<lambda>n. js ''2025-01-15T10:30:00.000Z''),
      read_error = (\<lambda>path. (js ''ENOENT'', js ''Error: ENOENT'')),
      stringify_errors = (\<lambda>r. js ''[]''),
      stringify_messages = (\<lambda>r. js ''[]''),
      stringify_response = (\<lambda>r. js ''{}'')\<rparr>"

definition remote_rejecting :: remote where
  "remote_rejecting =
     remote_ok\<lparr>copy_api := (\<lambda>calls v. Response False None (Some [js ''Bad Request'']))\<rparr>"

definition row_a :: row where
  "row_a =
     [js ''id'' \<mapsto> js ''1'', js ''video'' \<mapsto> js ''A'',
      js ''original file URL'' \<mapsto> js ''http://x/a.mp4'', js ''project'' \<mapsto> js ''10'']"

definition row_b :: row where
  "row_b =
     [js ''id'' \<mapsto> js ''2'', js ''video'' \<mapsto> js ''B'',
      js ''original file URL'' \<mapsto> js ''DELETED'', js ''project'' \<mapsto> js ''10'']"

definition video_a :: video where
  "video_a =
     \<lparr>v_name = js ''A'', v_url = js ''http://x/a.mp4'', v_projectId = js ''10'',
      v_spotlightrId = js ''1'', v_hlsUrl = []\<rparr>"

definition world_scenario :: world where
  "world_scenario =
     \<lparr>manifest = Manifest [row_a, row_b], results_file = NoFile, caption_dir = None,
      srt_files = Map.empty, log_file = None, submit_calls = [], caption_calls = []\<rparr>"

definition world_twice :: world where
  "world_twice = world_scenario\<lparr>manifest := Manifest [row_a, row_a]\<rparr>"

definition world_corrupt :: world where
  "world_corrupt = world_scenario\<lparr>results_file := Unparsable (js ''[{'')\<rparr>"

definition failed_before :: ledger_entry where
  "failed_before = failure_entry video_a (js ''Bad Request'') (js ''2025-01-14T09:00:00.000Z'')"

definition world_failed_before :: world where
  "world_failed_before = world_scenario\<lparr>results_file := Entries [failed_before]\<rparr>"

text \<open>A resumed run: three rows, one deleted, and a ledger in which id 1 already succeeded.\<close>

definition row_c :: row where
  "row_c =
     [js ''id'' \<mapsto> js ''3'', js ''video'' \<mapsto> js ''C'',
      js ''original file URL'' \<mapsto> js ''http://x/c.mp4'', js ''project'' \<mapsto> js ''10'']"


definition done_before :: ledger_entry where
  "done_before = success_entry video_a (js ''u0'') (js ''2025-01-14T09:00:00.000Z'')"

definition world_resume :: world where
  "world_resume =
     world_scenario\<lparr>manifest := Manifest [row_a, row_b, row_c], results_file := Entries [done_before]\<rparr>"

text \<open>A world for the caption tool: two migrated videos, three caption files and an older log.\<close>

definition world_captions :: world where
  "world_captions =
     world_scenario\<lparr>results_file := Entries [intro_first, intro_second],
                    caption_dir := Some caption_listing,
                    log_file := Some [js ''=== older log ==='']\<rparr>"





section \<open>Properties of the string helpers\<close>

lemma is_ws_SPACE: "is_ws SPACE"
  by (simp add: is_ws_def SPACE_def)

lemma is_ws_LF: "is_ws LF"
  by (simp add: is_ws_def LF_def)

lemma ws_pair_flip: "(\<lambda>x y. ws_pair y x) = ws_pair"
  by (auto simp: fun_eq_iff ws_pair_def)

lemma dropWhile_not_ws_hd: "dropWhile is_ws cs = [] \<or> \<not> is_ws (hd (dropWhile is_ws cs))"
  using hd_dropWhile [of is_ws cs] by blast

lemma collapse_ws_hd:
  "s = [] \<or> \<not> is_ws (hd s) \<Longrightarrow> collapse_ws s = [] \<or> \<not> is_ws (hd (collapse_ws s))"
  by (cases s) auto

lemma collapse_ws_chars: "c \<in> set (collapse_ws s) \<Longrightarrow> is_ws c \<Longrightarrow> c = SPACE"
  by (induction s rule: collapse_ws.induct) (auto split: if_splits)

lemma collapse_ws_successively: "successively ws_pair (collapse_ws s)"
proof (induction s rule: collapse_ws.induct)
  case 1
  show ?case by simp
next
  case (2 c cs)
  show ?case
  proof (cases "is_ws c")
    case True
    from collapse_ws_hd [OF dropWhile_not_ws_hd]
    have "collapse_ws (dropWhile is_ws cs) = [] \<or> \<not> is_ws (hd (collapse_ws (dropWhile is_ws cs)))" .
    with True 2 show ?thesis by (auto simp: successively_Cons ws_pair_def)
  next
    case False
    with 2 show ?thesis by (auto simp: successively_Cons ws_pair_def)
  qed
qed

lemma ws_normal_collapse_ws: "ws_normal (collapse_ws s)"
  using collapse_ws_chars collapse_ws_successively by (auto simp: ws_normal_def)

lemma collapse_ws_fixed: "ws_normal s \<Longrightarrow> collapse_ws s = s"
proof (induction s rule: collapse_ws.induct)
  case 1
  show ?case by simp
next
  case (2 c cs)
  from "2.prems" have rest: "ws_normal cs"
    by (auto simp: ws_normal_def successively_Cons ws_pair_def)
  show ?case
  proof (cases "is_ws c")
    case True
    with "2.prems" have c: "c = SPACE" and nxt: "cs = [] \<or> \<not> is_ws (hd cs)"
      by (auto simp: ws_normal_def successively_Cons ws_pair_def)
    from nxt have "dropWhile is_ws cs = cs" by (cases cs) auto
    with True c rest 2 show ?thesis by simp
  next
    case False
    with rest 2 show ?thesis by simp
  qed
qed

lemma ws_normal_dropWhile: "ws_normal s \<Longrightarrow> ws_normal (dropWhile P s)"
proof -
  assume a: "ws_normal s"
  then have "successively ws_pair (takeWhile P s @ dropWhile P s)"
    by (simp only: takeWhile_dropWhile_id ws_normal_def)
  then have "successively ws_pair (dropWhile P s)"
    by (simp only: successively_append_iff)
  moreover have "\<forall>c \<in> set (dropWhile P s). is_ws c \<longrightarrow> c = SPACE"
    using a set_dropWhileD [of _ P s] by (auto simp: ws_normal_def)
  ultimately show ?thesis by (simp add: ws_normal_def)
qed

lemma ws_normal_rev: "ws_normal (rev s) = ws_normal s"
proof -
  have "successively ws_pair (rev s) = successively ws_pair s"
    by (metis successively_rev ws_pair_flip)
  then show ?thesis by (simp add: ws_normal_def)
qed

lemma ws_normal_trim: "ws_normal s \<Longrightarrow> ws_normal (trim s)"
  by (simp add: trim_def ws_normal_rev ws_normal_dropWhile)

lemma trim_not_ws_hd: "trim s = [] \<or> \<not> is_ws (hd (trim s))"
proof (cases "trim s = []")
  case True
  then show ?thesis by simp
next
  case False
  let ?u = "dropWhile is_ws s"
  from False have ne: "dropWhile is_ws (rev ?u) \<noteq> []" by (simp add: trim_def)
  then have une: "?u \<noteq> []" by (metis dropWhile.simps(1) rev.simps(1))
  have "rev ?u = takeWhile is_ws (rev ?u) @ dropWhile is_ws (rev ?u)" by simp
  then have "?u = rev (dropWhile is_ws (rev ?u)) @ rev (takeWhile is_ws (rev ?u))"
    by (metis rev_append rev_rev_ident)
  then have "hd ?u = hd (trim s)" using ne
    by (metis trim_def hd_append2 rev_is_Nil_conv)
  moreover have "\<not> is_ws (hd ?u)" using une hd_dropWhile by blast
  ultimately show ?thesis by simp
qed

lemma trim_not_ws_last: "trim s \<noteq> [] \<Longrightarrow> \<not> is_ws (last (trim s))"
proof -
  assume ne: "trim s \<noteq> []"
  let ?v = "dropWhile is_ws (rev (dropWhile is_ws s))"
  from ne have v: "?v \<noteq> []" by (simp add: trim_def)
  have "last (trim s) = hd ?v" by (simp add: trim_def last_rev)
  with v show ?thesis using hd_dropWhile [of is_ws "rev (dropWhile is_ws s)"] by simp
qed

lemma trim_fixed:
  "s = [] \<or> \<not> is_ws (hd s) \<Longrightarrow> s = [] \<or> \<not> is_ws (last s) \<Longrightarrow> trim s = s"
proof (cases s)
  case Nil
  then show ?thesis by (simp add: trim_def)
next
  case (Cons a as)
  assume h: "s = [] \<or> \<not> is_ws (hd s)" and l: "s = [] \<or> \<not> is_ws (last s)"
  from Cons h have 1: "dropWhile is_ws s = s" by auto
  from Cons have sne: "s \<noteq> []" by simp
  with l have "\<not> is_ws (hd (rev s))" by (simp only: hd_rev) simp
  moreover from sne have "rev s \<noteq> []" by simp
  ultimately have "dropWhile is_ws (rev s) = rev s" by (cases "rev s") auto
  with 1 show ?thesis by (simp add: trim_def)
qed

lemma trim_idem: "trim (trim s) = trim s"
  using trim_fixed [of "trim s"] trim_not_ws_hd [of s] trim_not_ws_last [of s] by blast

section \<open>Properties of the transcoder stages\<close>

lemma eol_two_pass: "replace_cr (replace_crlf s) = normalize_eol s"
  by (induction s rule: normalize_eol.induct) (auto simp: replace_cr_def)

lemma replace_cr_no_CR: "CR \<notin> set (replace_cr s)"
  by (auto simp: replace_cr_def CR_def LF_def)

lemma matches_prefix_nth:
  "matches_prefix ps s \<longleftrightarrow> length ps \<le> length s \<and> (\<forall>k < length ps. (ps ! k) (s ! k))"
proof (induction ps s rule: matches_prefix.induct)
  case (3 p ps c cs)
  then show ?case by (auto simp: nth_Cons' less_Suc_eq_0_disj)
qed auto

lemma timestamp_pattern_length: "length timestamp_pattern = 12"
  by (simp add: timestamp_pattern_def)

lemma timestamp_at_nth:
  "timestamp_at s i \<longleftrightarrow> i + 12 \<le> length s \<and> (\<forall>k < 12. (timestamp_pattern ! k) (s ! (i + k)))"
  by (auto simp: timestamp_at_def matches_prefix_nth timestamp_pattern_length)

lemma comma_not_digit: "\<not> is_digit COMMA"
  by (simp add: is_digit_def COMMA_def)

lemma comma_not_colon: "COMMA \<noteq> COLON"
  by (simp add: COMMA_def COLON_def)

lemma pattern_rejects_comma: "k < 8 \<Longrightarrow> \<not> (timestamp_pattern ! k) COMMA"
  by (auto simp: timestamp_pattern_def less_Suc_eq numeral_eq_Suc nth_Cons' comma_not_digit comma_not_colon)

lemma timestamp_at_k: "timestamp_at s j \<Longrightarrow> k < 12 \<Longrightarrow> (timestamp_pattern ! k) (s ! (j + k))"
  by (simp add: timestamp_at_nth)

lemma timestamp_comma: "timestamp_at s j \<Longrightarrow> s ! (j + 8) = COMMA"
  using timestamp_at_k [of s j 8] by (simp add: timestamp_pattern_def)

lemma timestamp_last_digit: "timestamp_at s j \<Longrightarrow> is_digit (s ! (j + 11))"
  using timestamp_at_k [of s j 11] by (simp add: timestamp_pattern_def)

lemma timestamp_colon: "timestamp_at s j \<Longrightarrow> s ! (j + 2) = COLON"
  using timestamp_at_k [of s j 2] by (simp add: timestamp_pattern_def)

lemma colon_not_digit: "\<not> is_digit COLON"
  by (simp add: is_digit_def COLON_def)

lemma timestamp_overlap:
  assumes a: "timestamp_at s j" and b: "timestamp_at s i" and lt: "j < i" "i < j + 12"
  shows "i = j + 10 \<or> i = j + 11"
proof (rule ccontr)
  assume n: "\<not> (i = j + 10 \<or> i = j + 11)"
  show False
  proof (cases "i \<le> j + 8")
    case True
    let ?k = "j + 8 - i"
    from True lt have k: "?k < 8" and ik: "i + ?k = j + 8" by auto
    from b k have "(timestamp_pattern ! ?k) (s ! (i + ?k))" by (simp add: timestamp_at_nth)
    with ik timestamp_comma [OF a] pattern_rejects_comma [OF k] show False by simp
  next
    case False
    with n lt have i: "i = j + 9" by arith
    from timestamp_colon [OF b] i have "s ! (j + 11) = COLON" by (simp add: add.commute add.left_commute)
    with timestamp_last_digit [OF a] colon_not_digit show False by simp
  qed
qed


lemma timestamp_at_length: "timestamp_at s i \<Longrightarrow> i + 12 \<le> length s"
  by (simp add: timestamp_at_nth)

lemma timestamp_at_0: "timestamp_at s 0 = matches_prefix timestamp_pattern s"
  by (simp add: timestamp_at_def)

lemma timestamp_at_drop: "timestamp_at (drop n s) i = timestamp_at s (n + i)"
  by (simp add: timestamp_at_def add.commute)

lemma timestamp_at_Cons: "timestamp_at (c # cs) (Suc i) = timestamp_at cs i"
  by (simp add: timestamp_at_def)

lemma replace_timestamps_match:
  "timestamp_at s 0 \<Longrightarrow>
   replace_timestamps s = (take 12 s)[8 := DOT] @ replace_timestamps (drop 12 s)"
proof -
  assume m: "timestamp_at s 0"
  then have len: "12 \<le> length s" using timestamp_at_length [of s 0] by simp
  then obtain c cs where s: "s = c # cs" by (cases s) auto
  have "(take 12 s)[8 := DOT] = take 8 (take 12 s) @ DOT # drop 9 (take 12 s)"
    using len by (simp add: upd_conv_take_nth_drop)
  also have "\<dots> = take 8 s @ [DOT] @ take 3 (drop 9 s)"
    by (simp add: drop_take)
  finally have "(take 12 s)[8 := DOT] = take 8 s @ [DOT] @ take 3 (drop 9 s)" .
  moreover have "replace_timestamps s =
      take 8 s @ [DOT] @ take 3 (drop 9 s) @ replace_timestamps (drop 12 s)"
    using m unfolding s timestamp_at_0 by (simp only: replace_timestamps.simps if_True)
  ultimately show ?thesis by simp
qed

lemma replace_timestamps_no_match:
  "\<not> timestamp_at (c # cs) 0 \<Longrightarrow> replace_timestamps (c # cs) = c # replace_timestamps cs"
  by (simp add: timestamp_at_0)

lemma clear_before_drop: "clear_before s i \<Longrightarrow> n \<le> i \<Longrightarrow> clear_before (drop n s) (i - n)"
proof -
  assume c: "clear_before s i" and n: "n \<le> i"
  show ?thesis unfolding clear_before_def
  proof (intro allI impI)
    fix j assume "j < i - n" and "timestamp_at (drop n s) j"
    then have "timestamp_at s (n + j)" and "n + j < i" using n by (auto simp: timestamp_at_drop)
    with c have "n + j + 12 \<le> i" by (auto simp: clear_before_def)
    then show "j + 12 \<le> i - n" by arith
  qed
qed

lemma timestamp_at_drop_le: "timestamp_at s i \<Longrightarrow> n \<le> i \<Longrightarrow> timestamp_at (drop n s) (i - n)"
  by (simp add: timestamp_at_drop)

lemma clear_before_skip: "timestamp_at s 0 \<Longrightarrow> clear_before s i \<Longrightarrow> i = 0 \<or> 12 \<le> i"
  by (cases "i = 0") (auto simp: clear_before_def)

lemma matched_head_nth:
  assumes "12 \<le> length s"
  shows "((take 12 s)[8 := DOT] @ r) ! 8 = DOT"
    and "12 \<le> i \<Longrightarrow> ((take 12 s)[8 := DOT] @ r) ! (i + 8) = r ! (i - 12 + 8)"
proof -
  have l: "length ((take 12 s)[8 := DOT]) = 12" using assms by simp
  show "((take 12 s)[8 := DOT] @ r) ! 8 = DOT"
    using assms by (simp add: nth_append)
  assume "12 \<le> i"
  then have "i + 8 - 12 = i - 12 + 8" by arith
  with l \<open>12 \<le> i\<close> show "((take 12 s)[8 := DOT] @ r) ! (i + 8) = r ! (i - 12 + 8)"
    by (simp add: nth_append)
qed

lemma replace_timestamps_dot:
  "timestamp_at s i \<Longrightarrow> clear_before s i \<Longrightarrow> replace_timestamps s ! (i + 8) = DOT"
proof (induction s arbitrary: i rule: replace_timestamps.induct)
  case 1
  then show ?case using timestamp_at_length [of "[]" i] by simp
next
  case (2 c cs)
  let ?s = "c # cs"
  show ?case
  proof (cases "timestamp_at ?s 0")
    case True
    then have len: "12 \<le> length ?s" using timestamp_at_length [of ?s 0] by simp
    have eq: "replace_timestamps ?s = (take 12 ?s)[8 := DOT] @ replace_timestamps (drop 12 ?s)"
      using True by (rule replace_timestamps_match)
    show ?thesis
    proof (cases "i = 0")
      case True
      with eq matched_head_nth(1) [OF len] show ?thesis by (simp only: add_0)
    next
      case False
      with clear_before_skip [OF True "2.prems"(2)] have i12: "12 \<le> i" by simp
      have ih: "replace_timestamps (drop 12 ?s) ! (i - 12 + 8) = DOT"
        using "2.IH"(1) [OF True [unfolded timestamp_at_0]
          timestamp_at_drop_le [OF "2.prems"(1) i12] clear_before_drop [OF "2.prems"(2) i12]] .
      with eq matched_head_nth(2) [OF len i12] show ?thesis by (simp only:)
    qed
  next
    case False
    with "2.prems"(1) obtain i' where i: "i = Suc i'" by (cases i) auto
    have at: "timestamp_at cs i'" using "2.prems"(1) i by (simp add: timestamp_at_Cons)
    have free: "clear_before cs i'" unfolding clear_before_def
    proof (intro allI impI)
      fix j assume "j < i'" and "timestamp_at cs j"
      then have "timestamp_at ?s (Suc j)" and "Suc j < i"
        using i by (auto simp: timestamp_at_Cons)
      with "2.prems"(2) have "Suc j + 12 \<le> i" by (auto simp: clear_before_def)
      with i show "j + 12 \<le> i'" by arith
    qed
    have ih: "replace_timestamps cs ! (i' + 8) = DOT"
      using "2.IH"(2) [OF False [unfolded timestamp_at_0] at free] .
    from False have rt: "replace_timestamps ?s = c # replace_timestamps cs"
      by (rule replace_timestamps_no_match)
    have "(c # replace_timestamps cs) ! (Suc i' + 8) = replace_timestamps cs ! (i' + 8)"
      by (simp add: add.commute)
    with ih i rt show ?thesis by (simp only:)
  qed
qed

lemma clear_beforeI:
  assumes at: "timestamp_at s i" and no: "\<forall>j. j + 10 = i \<or> j + 11 = i \<longrightarrow> \<not> timestamp_at s j"
  shows "clear_before s i"
  unfolding clear_before_def
proof (intro allI impI)
  fix j assume lt: "j < i" and j: "timestamp_at s j"
  show "j + 12 \<le> i"
  proof (rule ccontr)
    assume "\<not> j + 12 \<le> i"
    then have "i < j + 12" by simp
    from timestamp_overlap [OF j at lt this] no j show False by auto
  qed
qed

lemma update_pointwise: "t ! 8 = COMMA \<Longrightarrow> list_all2 comma_to_dot t (t[8 := DOT])"
proof -
  assume c: "t ! 8 = COMMA"
  have "list_all2 comma_to_dot t t" by (simp add: list_all2_same comma_to_dot_def)
  then have "list_all2 comma_to_dot (t[8 := t ! 8]) (t[8 := DOT])"
    by (rule list_all2_update_cong) (simp add: comma_to_dot_def c)
  then show ?thesis by simp
qed

lemma replace_timestamps_pointwise: "list_all2 comma_to_dot s (replace_timestamps s)"
proof (induction s rule: replace_timestamps.induct)
  case 1
  show ?case by simp
next
  case (2 c cs)
  let ?s = "c # cs"
  show ?case
  proof (cases "timestamp_at ?s 0")
    case True
    then have len: "12 \<le> length ?s" using timestamp_at_length [of ?s 0] by simp
    have "?s ! 8 = COMMA" using timestamp_comma [OF True] by simp
    then have c8: "take 12 ?s ! 8 = COMMA" by simp
    have eq: "replace_timestamps ?s = (take 12 ?s)[8 := DOT] @ replace_timestamps (drop 12 ?s)"
      using True by (rule replace_timestamps_match)
    have hd: "list_all2 comma_to_dot (take 12 ?s) ((take 12 ?s)[8 := DOT])"
      using c8 by (rule update_pointwise)
    have tl: "list_all2 comma_to_dot (drop 12 ?s) (replace_timestamps (drop 12 ?s))"
      using "2.IH"(1) [OF True [unfolded timestamp_at_0]] .
    have "list_all2 comma_to_dot (take 12 ?s @ drop 12 ?s)
            ((take 12 ?s)[8 := DOT] @ replace_timestamps (drop 12 ?s))"
      using hd tl by (rule list_all2_appendI)
    with eq show ?thesis by (simp only: append_take_drop_id)
  next
    case False
    from False have "replace_timestamps ?s = c # replace_timestamps cs"
      by (rule replace_timestamps_no_match)
    with "2.IH"(2) [OF False [unfolded timestamp_at_0]] show ?thesis
      by (simp add: comma_to_dot_def)
  qed
qed

lemma is_ws_CR: "is_ws CR"
  by (simp add: is_ws_def CR_def)

lemma comma_not_ws: "\<not> is_ws COMMA"
  by (simp add: is_ws_def COMMA_def)

lemma dot_not_ws: "\<not> is_ws DOT"
  by (simp add: is_ws_def DOT_def)

lemma trim_subset: "set (trim s) \<subseteq> set s"
proof
  fix x assume "x \<in> set (trim s)"
  then have "x \<in> set (dropWhile is_ws (rev (dropWhile is_ws s)))" by (simp add: trim_def)
  then have "x \<in> set (rev (dropWhile is_ws s))" by (rule set_dropWhileD)
  then have "x \<in> set (dropWhile is_ws s)" by simp
  then show "x \<in> set s" by (rule set_dropWhileD)
qed

lemma trim_Nil_iff: "trim s = [] \<longleftrightarrow> (\<forall>c \<in> set s. is_ws c)"
proof
  assume "trim s = []"
  then have "\<forall>c \<in> set (dropWhile is_ws s). is_ws c"
    by (simp add: trim_def)
  then have "dropWhile is_ws s = []"
    using hd_dropWhile [of is_ws s] hd_in_set [of "dropWhile is_ws s"] by blast
  then show "\<forall>c \<in> set s. is_ws c" by simp
next
  assume "\<forall>c \<in> set s. is_ws c"
  then have d: "dropWhile is_ws s = []" by simp
  show "trim s = []" unfolding trim_def d by simp
qed

lemma normalize_eol_all_ws: "(\<forall>c \<in> set (normalize_eol s). is_ws c) \<longleftrightarrow> (\<forall>c \<in> set s. is_ws c)"
  by (induction s rule: normalize_eol.induct) (auto simp: is_ws_CR is_ws_LF)

lemma normalize_eol_no_CR: "CR \<notin> set (normalize_eol s)"
  by (induction s rule: normalize_eol.induct) (auto simp: CR_def LF_def)

lemma pointwise_all_ws:
  "list_all2 comma_to_dot s r \<Longrightarrow> (\<forall>c \<in> set r. is_ws c) \<longleftrightarrow> (\<forall>c \<in> set s. is_ws c)"
  by (induction rule: list_all2_induct) (auto simp: comma_to_dot_def comma_not_ws dot_not_ws)

lemma pointwise_no_CR: "list_all2 comma_to_dot s r \<Longrightarrow> CR \<notin> set s \<Longrightarrow> CR \<notin> set r"
  by (induction rule: list_all2_induct) (auto simp: comma_to_dot_def CR_def DOT_def)

lemma header_no_CR: "CR \<notin> set (js ''WEBVTT'' @ [LF, LF])"
  by (simp add: js_def CR_def LF_def)

lemma srtToVtt_unfold:
  "srtToVtt s = js ''WEBVTT'' @ [LF, LF] @ trim (replace_timestamps (normalize_eol s)) @ [LF]"
  by (simp add: srtToVtt_def eol_two_pass)

lemma srtToVtt_no_CR: "CR \<notin> set (srtToVtt s)"
proof -
  have "CR \<notin> set (replace_timestamps (normalize_eol s))"
    using replace_timestamps_pointwise normalize_eol_no_CR by (rule pointwise_no_CR)
  then have "CR \<notin> set (trim (replace_timestamps (normalize_eol s)))"
    using trim_subset by blast
  moreover have "CR \<noteq> LF" by (simp add: CR_def LF_def)
  ultimately show ?thesis using header_no_CR by (simp add: srtToVtt_unfold)
qed

lemma body_Nil_iff: "trim (replace_timestamps (normalize_eol s)) = [] \<longleftrightarrow> (\<forall>c \<in> set s. is_ws c)"
  using pointwise_all_ws [OF replace_timestamps_pointwise, of "normalize_eol s"]
  by (simp add: trim_Nil_iff normalize_eol_all_ws)

lemma srtToVtt_one_newline: "\<exists>c \<in> set s. \<not> is_ws c \<Longrightarrow> ends_with_one_newline (srtToVtt s)"
proof -
  let ?b = "trim (replace_timestamps (normalize_eol s))"
  assume "\<exists>c \<in> set s. \<not> is_ws c"
  then have ne: "?b \<noteq> []" using body_Nil_iff [of s] by blast
  then have "\<not> is_ws (last ?b)" by (rule trim_not_ws_last)
  then have l: "last ?b \<noteq> LF" using is_ws_LF by metis
  have "butlast (srtToVtt s) = js ''WEBVTT'' @ [LF, LF] @ ?b"
    by (simp add: srtToVtt_unfold butlast_append)
  then have "last (butlast (srtToVtt s)) = last ?b" using ne by simp
  with l show ?thesis by (simp add: ends_with_one_newline_def srtToVtt_unfold)
qed

lemma srtToVtt_blank: "\<forall>c \<in> set s. is_ws c \<Longrightarrow> srtToVtt s = js ''WEBVTT'' @ [LF, LF, LF]"
  using body_Nil_iff [of s] by (simp add: srtToVtt_unfold)

section \<open>Name normalizer: idempotence\<close>

text \<open>
  C5, as stated: \<open>normalize(normalize(x)) = normalize(x)\<close> for every string. It fails
  for the caption file of a video whose name keeps its own extension: only one
  extension is removed per call, so the first call yields \<open>Intro.mp4\<close> and the second
  \<open>Intro\<close>.
\<close>

theorem normalize_not_idempotent:
  "normalize_name (normalize_name (js ''Intro.mp4.srt'')) \<noteq> normalize_name (js ''Intro.mp4.srt'')"
  by code_simp

text \<open>
  C5, amended: a second call changes nothing whenever the first result no longer ends
  in a known extension or in an underscore or period. White space never needs a second
  pass.
\<close>

theorem normalize_idempotent_when_stripped:
  assumes "\<not> has_ext (normalize_name x)" and "\<not> ends_in_separator (normalize_name x)"
  shows "normalize_name (normalize_name x) = normalize_name x"
proof -
  let ?y = "normalize_name x"
  have n: "ws_normal ?y"
    by (simp add: normalize_name_def ws_normal_trim ws_normal_collapse_ws)
  have 1: "strip_ext ?y = ?y" using assms(1) by (simp add: strip_ext_def)
  have 2: "strip_trailing ?y = ?y"
    using assms(2) by (auto simp: strip_trailing_def ends_in_separator_def)
  have 3: "collapse_ws ?y = ?y" using n by (rule collapse_ws_fixed)
  have 4: "trim ?y = ?y" by (simp add: normalize_name_def trim_idem)
  have "normalize_name ?y = trim (collapse_ws (strip_trailing (strip_ext ?y)))"
    by (simp only: normalize_name_def)
  with 1 2 3 4 show ?thesis by simp
qed

theorem normalize_idempotent_when_stripped_witness:
  "\<not> has_ext (normalize_name (js ''My  Video_.MP4'')) \<and>
   \<not> ends_in_separator (normalize_name (js ''My  Video_.MP4'')) \<and>
   normalize_name (js ''My  Video_.MP4'') = js ''My Video'' \<and>
   normalize_name (normalize_name (js ''My  Video_.MP4'')) = normalize_name (js ''My  Video_.MP4'')"
proof -
  have a: "\<not> has_ext (normalize_name (js ''My  Video_.MP4''))" by code_simp
  have b: "\<not> ends_in_separator (normalize_name (js ''My  Video_.MP4''))" by code_simp
  have c: "normalize_name (js ''My  Video_.MP4'') = js ''My Video''" by code_simp
  from a b c normalize_idempotent_when_stripped [OF a b] show ?thesis by simp
qed

section \<open>Format transcoder: shape of the output\<close>

text \<open>
  C6, as stated: for every input the output ends with exactly one trailing newline and
  the comma is rewritten wherever the pattern occurs. Both fail. For the empty input
  the output is the header followed by three line feeds. And the scan resumes after
  each match, so in \<open>00:00:00,123:45:67,890\<close> the occurrence that starts at position
  10, inside the milliseconds of the first one, keeps its comma.
\<close>

theorem srtToVtt_shape_counterexample:
  "srtToVtt [] = js ''WEBVTT'' @ [LF, LF, LF] \<and>
   \<not> ends_with_one_newline (srtToVtt []) \<and>
   timestamp_at srt_overlap 10 \<and>
   srtToVtt srt_overlap = js ''WEBVTT'' @ [LF, LF] @ js ''00:00:00.123:45:67,890'' @ [LF]"
proof -
  have 1: "srtToVtt [] = js ''WEBVTT'' @ [LF, LF, LF]" by code_simp
  have 2: "\<not> ends_with_one_newline (srtToVtt [])" by code_simp
  have 3: "timestamp_at srt_overlap 10" by code_simp
  have 4: "srtToVtt srt_overlap = js ''WEBVTT'' @ [LF, LF] @ js ''00:00:00.123:45:67,890'' @ [LF]"
    by code_simp
  from 1 2 3 4 show ?thesis by (simp only: simp_thms)
qed

text \<open>
  C6, amended. For every input \<open>s\<close>: the output is the header \<open>WEBVTT\<close> and a blank
  line, then the trimmed body, then one line feed, where the body is the input with
  every CR LF pair and every lone CR turned into one LF and with timestamps rewritten;
  the output contains no CR; the rewrite changes nothing but commas into periods, and
  it does change the comma of every occurrence of the pattern that no occurrence
  starting 10 or 11 positions earlier overlaps; the output ends with exactly one
  trailing newline whenever the input has a character that is not white space, and for
  an input of white space only it is the header followed by three line feeds. On the
  spec's example the output is as the spec says.
\<close>

theorem srtToVtt_shape:
  "srtToVtt s = js ''WEBVTT'' @ [LF, LF] @ trim (replace_timestamps (normalize_eol s)) @ [LF] \<and>
   prefix (js ''WEBVTT'' @ [LF, LF]) (srtToVtt s) \<and>
   CR \<notin> set (srtToVtt s) \<and>
   list_all2 comma_to_dot (normalize_eol s) (replace_timestamps (normalize_eol s)) \<and>
   (\<forall>i. timestamp_at (normalize_eol s) i \<and>
        (\<forall>j. j + 10 = i \<or> j + 11 = i \<longrightarrow> \<not> timestamp_at (normalize_eol s) j) \<longrightarrow>
        replace_timestamps (normalize_eol s) ! (i + 8) = DOT) \<and>
   ((\<exists>c \<in> set s. \<not> is_ws c) \<longrightarrow> ends_with_one_newline (srtToVtt s)) \<and>
   ((\<forall>c \<in> set s. is_ws c) \<longrightarrow> srtToVtt s = js ''WEBVTT'' @ [LF, LF, LF]) \<and>
   srtToVtt srt_example =
     js ''WEBVTT'' @ [LF, LF] @ js ''00:00:08.667 --> 00:00:10.001'' @ [LF] @ js ''Hello'' @ [LF] \<and>
   sublist (js ''00:00:08.667'') (srtToVtt srt_example) \<and>
   sublist (js ''00:00:10.001'') (srtToVtt srt_example)"
proof -
  have 1: "srtToVtt s = js ''WEBVTT'' @ [LF, LF] @ trim (replace_timestamps (normalize_eol s)) @ [LF]"
    by (rule srtToVtt_unfold)
  have 2: "prefix (js ''WEBVTT'' @ [LF, LF]) (srtToVtt s)"
    unfolding srtToVtt_unfold by (simp only: prefixI append_assoc)
  have 3: "CR \<notin> set (srtToVtt s)" by (rule srtToVtt_no_CR)
  have 4: "list_all2 comma_to_dot (normalize_eol s) (replace_timestamps (normalize_eol s))"
    by (rule replace_timestamps_pointwise)
  have 5: "\<forall>i. timestamp_at (normalize_eol s) i \<and>
        (\<forall>j. j + 10 = i \<or> j + 11 = i \<longrightarrow> \<not> timestamp_at (normalize_eol s) j) \<longrightarrow>
        replace_timestamps (normalize_eol s) ! (i + 8) = DOT"
    using replace_timestamps_dot clear_beforeI by blast
  have 6: "(\<exists>c \<in> set s. \<not> is_ws c) \<longrightarrow> ends_with_one_newline (srtToVtt s)"
    using srtToVtt_one_newline by blast
  have 7: "(\<forall>c \<in> set s. is_ws c) \<longrightarrow> srtToVtt s = js ''WEBVTT'' @ [LF, LF, LF]"
    using srtToVtt_blank by blast
  have 8: "srtToVtt srt_example =
     js ''WEBVTT'' @ [LF, LF] @ js ''00:00:08.667 --> 00:00:10.001'' @ [LF] @ js ''Hello'' @ [LF]"
    by code_simp
  have 9: "sublist (js ''00:00:08.667'') (srtToVtt srt_example)" by code_simp
  have 10: "sublist (js ''00:00:10.001'') (srtToVtt srt_example)" by code_simp
  from 1 2 3 4 5 6 7 8 9 10 show ?thesis by (intro conjI)
qed

theorem srtToVtt_shape_witness:
  "timestamp_at (normalize_eol srt_example) 0 \<and>
   timestamp_at (normalize_eol srt_example) 17 \<and>
   replace_timestamps (normalize_eol srt_example) ! 8 = DOT \<and>
   replace_timestamps (normalize_eol srt_example) ! 25 = DOT \<and>
   ends_with_one_newline (srtToVtt srt_example) \<and>
   srtToVtt [SPACE, CR, LF] = js ''WEBVTT'' @ [LF, LF, LF]"
proof -
  let ?e = "normalize_eol srt_example"
  have a0: "timestamp_at ?e 0" by code_simp
  have a17: "timestamp_at ?e 17" by code_simp
  have f0: "\<forall>j. j + 10 = (0::nat) \<or> j + 11 = 0 \<longrightarrow> \<not> timestamp_at ?e j" by simp
  have f17: "\<forall>j. j + 10 = (17::nat) \<or> j + 11 = 17 \<longrightarrow> \<not> timestamp_at ?e j"
  proof (intro allI impI)
    fix j :: nat assume "j + 10 = 17 \<or> j + 11 = 17"
    then have "j = 7 \<or> j = 6" by arith
    moreover have "\<not> timestamp_at ?e 7" by code_simp
    moreover have "\<not> timestamp_at ?e 6" by code_simp
    ultimately show "\<not> timestamp_at ?e j" by blast
  qed
  have nonblank: "\<exists>c \<in> set srt_example. \<not> is_ws c" by code_simp
  have blank: "\<forall>c \<in> set [SPACE, CR, LF]. is_ws c" by (simp add: is_ws_SPACE is_ws_CR is_ws_LF)
  note main = srtToVtt_shape [of srt_example]
  from main a0 f0 have d0: "replace_timestamps ?e ! (0 + 8) = DOT" by blast
  from main a17 f17 have d17: "replace_timestamps ?e ! (17 + 8) = DOT" by blast
  from main nonblank have one: "ends_with_one_newline (srtToVtt srt_example)" by blast
  from srtToVtt_shape [of "[SPACE, CR, LF]"] blank
  have three: "srtToVtt [SPACE, CR, LF] = js ''WEBVTT'' @ [LF, LF, LF]" by blast
  from a0 a17 d0 d17 one three show ?thesis by simp
qed

section \<open>Caption matcher\<close>

lemma build_lookup_find:
  "build_lookup es m k = (case m k of Some v \<Rightarrow> Some v | None \<Rightarrow> first_match es k)"
  by (induction es arbitrary: m) (auto simp: first_match_def Let_def split: option.splits)

lemma build_lookup_empty: "build_lookup es Map.empty k = first_match es k"
  by (simp add: build_lookup_find)

lemma match_loop_matched:
  "matched (match_loop m fs acc) =
   matched acc @ concat (map (\<lambda>f. case m (normalize_name f) of None \<Rightarrow> [] | Some e \<Rightarrow> [match_of f e]) fs)"
  by (induction fs arbitrary: acc) (auto simp: match_of_def split: option.splits)

lemma match_loop_unmatched:
  "unmatched (match_loop m fs acc) = unmatched acc @ filter (\<lambda>f. m (normalize_name f) = None) fs"
  by (induction fs arbitrary: acc) (auto split: option.splits)

lemma matchCaptions_matched:
  "matched (matchCaptions fs es) = concat (map (matches_for es) fs)"
proof -
  have "build_lookup es Map.empty = first_match es"
    by (rule ext) (rule build_lookup_empty)
  then show ?thesis
    by (simp add: matchCaptions_def match_loop_matched matches_for_def [abs_def])
qed

lemma matchCaptions_unmatched:
  "unmatched (matchCaptions fs es) = filter (\<lambda>f. first_match es (normalize_name f) = None) fs"
proof -
  have "build_lookup es Map.empty = first_match es"
    by (rule ext) (rule build_lookup_empty)
  then show ?thesis
    by (simp add: matchCaptions_def match_loop_unmatched)
qed

lemma matched_files:
  "map m_srtFile (concat (map (matches_for es) fs)) =
   filter (\<lambda>f. first_match es (normalize_name f) \<noteq> None) fs"
  by (induction fs) (auto simp: matches_for_def match_of_def split: option.splits)

lemma first_match_append:
  "\<forall>x \<in> set pre. normalize_name (name x) \<noteq> k \<Longrightarrow> normalize_name (name e) = k \<Longrightarrow>
   first_match (pre @ e # post) k = Some e"
  by (induction pre) (auto simp: first_match_def)

text \<open>
  C7. The Map built by \<open>matchCaptions\<close> sends a key to the first entry of the ledger
  sequence with that normalized name, whatever follows it; so a file whose normalized
  name is the key of an entry \<open>e\<close> with no equal key before it is matched to \<open>e\<close>
  and to nothing else, and the list of matches is the files' matches in file order, at
  most one per file. For the entries \<open>Intro\<close>, \<open>Intro\<close> and the file
  \<open>Intro.srt\<close> the result is the single match with the first entry.
\<close>

theorem matchCaptions_first_seen:
  "(es = pre @ e # post \<and>
    (\<forall>x \<in> set pre. normalize_name (name x) \<noteq> normalize_name f) \<and>
    normalize_name (name e) = normalize_name f \<longrightarrow>
      matches_for es f = [match_of f e]) \<and>
   build_lookup es Map.empty k = first_match es k \<and>
   matched (matchCaptions fs es) = concat (map (matches_for es) fs) \<and>
   length (matches_for es f) \<le> 1 \<and>
   matchCaptions [js ''Intro.srt''] [intro_first, intro_second] =
     \<lparr>matched = [match_of (js ''Intro.srt'') intro_first], unmatched = []\<rparr>"
proof -
  have 1: "es = pre @ e # post \<and>
    (\<forall>x \<in> set pre. normalize_name (name x) \<noteq> normalize_name f) \<and>
    normalize_name (name e) = normalize_name f \<longrightarrow>
      matches_for es f = [match_of f e]"
    using first_match_append [of pre "normalize_name f" e post]
    by (auto simp: matches_for_def)
  have 2: "build_lookup es Map.empty k = first_match es k" by (rule build_lookup_empty)
  have 3: "matched (matchCaptions fs es) = concat (map (matches_for es) fs)"
    by (rule matchCaptions_matched)
  have 4: "length (matches_for es f) \<le> 1"
    by (simp add: matches_for_def split: option.splits)
  have 5: "matchCaptions [js ''Intro.srt''] [intro_first, intro_second] =
     \<lparr>matched = [match_of (js ''Intro.srt'') intro_first], unmatched = []\<rparr>"
    by code_simp
  from 1 2 3 4 5 show ?thesis by (intro conjI)
qed

theorem matchCaptions_first_seen_witness:
  "normalize_name (name intro_first) = normalize_name (js ''Intro.srt'') \<and>
   normalize_name (name intro_second) = normalize_name (js ''Intro.srt'') \<and>
   matched (matchCaptions [js ''Intro.srt''] [intro_first, intro_second]) =
     [match_of (js ''Intro.srt'') intro_first]"
proof -
  let ?f = "js ''Intro.srt''"
  have a: "normalize_name (name intro_first) = normalize_name ?f" by code_simp
  have b: "normalize_name (name intro_second) = normalize_name ?f" by code_simp
  have c: "[intro_first, intro_second] = [] @ intro_first # [intro_second]" by simp
  have d: "\<forall>x \<in> set []. normalize_name (name x) \<noteq> normalize_name ?f" by simp
  note main = matchCaptions_first_seen
    [of "[intro_first, intro_second]" "[]" intro_first "[intro_second]" ?f _ "[?f]"]
  from main a c d have "matches_for [intro_first, intro_second] ?f = [match_of ?f intro_first]"
    by blast
  moreover from main
  have "matched (matchCaptions [?f] [intro_first, intro_second]) =
          concat (map (matches_for [intro_first, intro_second]) [?f])"
    by blast
  ultimately have "matched (matchCaptions [?f] [intro_first, intro_second]) = [match_of ?f intro_first]"
    by simp
  with a b show ?thesis by (intro conjI)
qed

text \<open>
  C10. \<open>matchCaptions\<close> splits the files in two: \<open>matched\<close> holds, in input order,
  one match for each file whose normalized name is a key of the ledger, and
  \<open>unmatched\<close> holds, in input order, the other files; so each file is in exactly one
  of the two and the lengths add up to the number of files. The function only reads
  its two arguments: the model is a function of them and returns new lists.
\<close>

theorem matchCaptions_partition:
  "map m_srtFile (matched (matchCaptions fs es)) =
     filter (\<lambda>f. first_match es (normalize_name f) \<noteq> None) fs \<and>
   unmatched (matchCaptions fs es) =
     filter (\<lambda>f. first_match es (normalize_name f) = None) fs \<and>
   length (matched (matchCaptions fs es)) + length (unmatched (matchCaptions fs es)) = length fs"
proof -
  let ?P = "\<lambda>f. first_match es (normalize_name f) \<noteq> None"
  have 1: "map m_srtFile (matched (matchCaptions fs es)) = filter ?P fs"
    by (simp only: matchCaptions_matched matched_files)
  have 2: "unmatched (matchCaptions fs es) = filter (\<lambda>f. \<not> ?P f) fs"
    by (simp add: matchCaptions_unmatched)
  have "length (matched (matchCaptions fs es)) = length (filter ?P fs)"
    using 1 by (metis length_map)
  with 2 have 3: "length (matched (matchCaptions fs es)) + length (unmatched (matchCaptions fs es)) = length fs"
    by (simp only: sum_length_filter_compl)
  from 1 2 3 show ?thesis by simp
qed

theorem matchCaptions_partition_witness:
  "map m_srtFile (matched (matchCaptions caption_listing [intro_first, intro_second])) =
     [js ''Intro.srt'', js ''Intro .srt''] \<and>
   unmatched (matchCaptions caption_listing [intro_first, intro_second]) = [js ''Outro.srt''] \<and>
   length (matched (matchCaptions caption_listing [intro_first, intro_second])) +
   length (unmatched (matchCaptions caption_listing [intro_first, intro_second])) = 3"
proof -
  let ?es = "[intro_first, intro_second]"
  have a: "filter (\<lambda>f. first_match ?es (normalize_name f) \<noteq> None) caption_listing =
           [js ''Intro.srt'', js ''Intro .srt'']"
    by code_simp
  have b: "filter (\<lambda>f. first_match ?es (normalize_name f) = None) caption_listing =
           [js ''Outro.srt'']"
    by code_simp
  have c: "length caption_listing = 3" by (simp add: caption_listing_def)
  show ?thesis using matchCaptions_partition [of caption_listing ?es] unfolding a b c .
qed

section \<open>Migration engine: what one run does\<close>

lemma upload_and_record_calls:
  "submit_calls (rs_world (upload_and_record rem v st)) = submit_calls (rs_world st) @ [v]"
  by (simp add: upload_and_record_def uploadToCloudflare_def saveMigrationResults_def Let_def
      split: response.splits)

lemma upload_and_record_results:
  "\<exists>e. results (upload_and_record rem v st) = results st @ [e] \<and> spotlightrId e = v_spotlightrId v"
  by (simp add: upload_and_record_def uploadToCloudflare_def saveMigrationResults_def Let_def
      success_entry_def failure_entry_def split: response.splits)

lemma upload_and_record_file:
  "results_file (rs_world (upload_and_record rem v st)) = Entries (results (upload_and_record rem v st))"
  by (simp add: upload_and_record_def uploadToCloudflare_def saveMigrationResults_def Let_def
      split: response.splits)


lemma upload_and_record_frame:
  "manifest (rs_world (upload_and_record rem v st)) = manifest (rs_world st) \<and>
   caption_dir (rs_world (upload_and_record rem v st)) = caption_dir (rs_world st) \<and>
   srt_files (rs_world (upload_and_record rem v st)) = srt_files (rs_world st) \<and>
   log_file (rs_world (upload_and_record rem v st)) = log_file (rs_world st) \<and>
   caption_calls (rs_world (upload_and_record rem v st)) = caption_calls (rs_world st)"
  by (simp add: upload_and_record_def uploadToCloudflare_def saveMigrationResults_def Let_def
      split: response.splits)


lemma migrate_loop_calls:
  "\<not> DRY_RUN cfg \<Longrightarrow>
   submit_calls (rs_world (migrate_loop cfg rem A vs st)) = submit_calls (rs_world st) @ pending A vs"
  by (induction vs arbitrary: st) (simp_all add: pending_def upload_and_record_calls)

lemma migrate_loop_results:
  "\<not> DRY_RUN cfg \<Longrightarrow>
   \<exists>new. results (migrate_loop cfg rem A vs st) = results st @ new \<and>
         map spotlightrId new = map v_spotlightrId (pending A vs)"
proof (induction vs arbitrary: st)
  case Nil
  then show ?case by (simp add: pending_def)
next
  case (Cons v vs)
  show ?case
  proof (cases "v_spotlightrId v \<in> A")
    case True
    with Cons.IH [OF Cons.prems, of "st\<lparr>skipCount := skipCount st + 1\<rparr>"] show ?thesis
      by (simp add: pending_def)
  next
    case False
    from upload_and_record_results [of rem v st] obtain e where
      e: "results (upload_and_record rem v st) = results st @ [e]" "spotlightrId e = v_spotlightrId v"
      by blast
    from Cons.IH [OF Cons.prems, of "upload_and_record rem v st"] obtain new where
      new: "results (migrate_loop cfg rem A vs (upload_and_record rem v st)) =
              results (upload_and_record rem v st) @ new"
           "map spotlightrId new = map v_spotlightrId (pending A vs)"
      by blast
    have "results (migrate_loop cfg rem A (v # vs) st) = results st @ (e # new)"
      using False Cons.prems e new by simp
    moreover have "map spotlightrId (e # new) = map v_spotlightrId (pending A (v # vs))"
      using False e new by (simp add: pending_def)
    ultimately show ?thesis by blast
  qed
qed

lemma migrate_loop_file:
  "\<not> DRY_RUN cfg \<Longrightarrow>
   results_file (rs_world (migrate_loop cfg rem A vs st)) =
     (if pending A vs = [] then results_file (rs_world st)
      else Entries (results (migrate_loop cfg rem A vs st)))"
proof (induction vs arbitrary: st)
  case Nil
  then show ?case by (simp add: pending_def)
next
  case (Cons v vs)
  show ?case
  proof (cases "v_spotlightrId v \<in> A")
    case True
    with Cons.IH [OF Cons.prems, of "st\<lparr>skipCount := skipCount st + 1\<rparr>"] show ?thesis
      by (simp add: pending_def)
  next
    case False
    let ?st = "upload_and_record rem v st"
    have step: "migrate_loop cfg rem A (v # vs) st = migrate_loop cfg rem A vs ?st"
      using False Cons.prems by simp
    show ?thesis
    proof (cases "pending A vs = []")
      case True
      then have "vs = completed A vs" by (auto simp: pending_def completed_def filter_empty_conv filter_id_conv)
      have "results_file (rs_world (migrate_loop cfg rem A vs ?st)) = results_file (rs_world ?st)"
        using Cons.IH [OF Cons.prems, of ?st] True by simp
      moreover from migrate_loop_results [OF Cons.prems, of rem A vs ?st] True
      have "results (migrate_loop cfg rem A vs ?st) = results ?st" by auto
      ultimately show ?thesis using False step upload_and_record_file [of rem v st]
        by (simp add: pending_def)
    next
      case nonempty: False
      with Cons.IH [OF Cons.prems, of ?st] False step show ?thesis
        by (simp add: pending_def)
    qed
  qed
qed


lemma migrate_loop_dry:
  "DRY_RUN cfg \<Longrightarrow>
   rs_world (migrate_loop cfg rem A vs st) = rs_world st \<and>
   results (migrate_loop cfg rem A vs st) = results st \<and>
   failCount (migrate_loop cfg rem A vs st) = failCount st"
  by (induction vs arbitrary: st) simp_all



lemma migrate_main_run:
  assumes "credentials_ok cfg" "manifest w = Manifest records"
    and "extractMigratableVideos cfg records \<noteq> []"
    and "loadPreviousResults (results_file w) = Entries prev"
  shows "migrate_main cfg rem w =
     (rs_world (migrate_loop cfg rem (alreadyMigrated_of prev) (extractMigratableVideos cfg records)
        (initial_state w prev)),
      Inr (Some \<lparr>s_success = successCount (migrate_loop cfg rem (alreadyMigrated_of prev)
                      (extractMigratableVideos cfg records) (initial_state w prev)),
                 s_skipped = skipCount (migrate_loop cfg rem (alreadyMigrated_of prev)
                      (extractMigratableVideos cfg records) (initial_state w prev)),
                 s_failed = failCount (migrate_loop cfg rem (alreadyMigrated_of prev)
                      (extractMigratableVideos cfg records) (initial_state w prev)),
                 s_total = length (extractMigratableVideos cfg records)\<rparr>))"
  using assms by (simp add: migrate_main_def credentials_ok_def initial_state_def Let_def)

lemma migrate_main_nothing:
  assumes "credentials_ok cfg" "manifest w = Manifest records"
    and "extractMigratableVideos cfg records = []"
  shows "migrate_main cfg rem w = (w, Inr None)"
  using assms by (simp add: migrate_main_def credentials_ok_def)

lemma initial_state_sel:
  "rs_world (initial_state w prev) = w" "results (initial_state w prev) = prev"
  "successCount (initial_state w prev) = 0" "skipCount (initial_state w prev) = 0"
  "failCount (initial_state w prev) = 0"
  by (simp_all add: initial_state_def)




lemma migrate_main_dry: "DRY_RUN cfg \<Longrightarrow> fst (migrate_main cfg rem w) = w"
  by (simp add: migrate_main_def Let_def migrate_loop_dry
      split: manifest_file.splits ledger_file.splits)


lemma migrate_main_live:
  assumes cred: "credentials_ok cfg" and live: "\<not> DRY_RUN cfg"
    and man: "manifest w = Manifest records"
    and ne: "extractMigratableVideos cfg records \<noteq> []"
    and load: "loadPreviousResults (results_file w) = Entries prev"
  shows "submit_calls (fst (migrate_main cfg rem w)) =
           submit_calls w @ pending (alreadyMigrated_of prev) (extractMigratableVideos cfg records)"
    and "\<exists>new. map spotlightrId new =
             map v_spotlightrId (pending (alreadyMigrated_of prev) (extractMigratableVideos cfg records)) \<and>
           results_file (fst (migrate_main cfg rem w)) =
             (if pending (alreadyMigrated_of prev) (extractMigratableVideos cfg records) = []
              then results_file w else Entries (prev @ new))"
proof -
  let ?A = "alreadyMigrated_of prev"
  let ?vs = "extractMigratableVideos cfg records"
  let ?st = "migrate_loop cfg rem ?A ?vs (initial_state w prev)"
  have run: "fst (migrate_main cfg rem w) = rs_world ?st"
    using migrate_main_run [OF cred man ne load, of rem] by simp
  show "submit_calls (fst (migrate_main cfg rem w)) = submit_calls w @ pending ?A ?vs"
    using run migrate_loop_calls [OF live, of rem ?A ?vs "initial_state w prev"]
    by (simp add: initial_state_sel)
  from migrate_loop_results [OF live, of rem ?A ?vs "initial_state w prev"]
  obtain new where new: "results ?st = prev @ new"
      "map spotlightrId new = map v_spotlightrId (pending ?A ?vs)"
    by (auto simp: initial_state_sel)
  have "results_file (rs_world ?st) =
          (if pending ?A ?vs = [] then results_file w else Entries (prev @ new))"
    using migrate_loop_file [OF live, of rem ?A ?vs "initial_state w prev"] new(1)
    by (simp add: initial_state_sel)
  with run new(2)
  show "\<exists>new. map spotlightrId new = map v_spotlightrId (pending ?A ?vs) \<and>
           results_file (fst (migrate_main cfg rem w)) =
             (if pending ?A ?vs = [] then results_file w else Entries (prev @ new))"
    by auto
qed

lemma pending_empty_set: "pending {} vs = vs"
  by (simp add: pending_def)

lemma log_frame:
  "results_file (log l w) = results_file w" "caption_calls (log l w) = caption_calls w"
  "submit_calls (log l w) = submit_calls w" "caption_dir (log l w) = caption_dir w"
  by (simp_all add: log_def)

lemma log_all_frame:
  "results_file (log_all ls w) = results_file w \<and> caption_calls (log_all ls w) = caption_calls w \<and>
   submit_calls (log_all ls w) = submit_calls w \<and> caption_dir (log_all ls w) = caption_dir w"
  by (induction ls arbitrary: w) (simp_all add: log_frame)

lemma caption_loop_dry:
  "DRY_RUN cfg \<Longrightarrow> cs_world (caption_loop cfg rem ms st) = cs_world st"
  by (induction ms arbitrary: st) simp_all

lemma init_log_frame:
  "results_file (init_log cfg rem w) = results_file w \<and>
   caption_calls (init_log cfg rem w) = caption_calls w \<and>
   submit_calls (init_log cfg rem w) = submit_calls w \<and>
   caption_dir (init_log cfg rem w) = caption_dir w"
  by (simp add: init_log_def log_frame)

lemma captions_main_dry: "DRY_RUN cfg \<Longrightarrow> fst (captions_main cfg rem w) = w"
  by (simp add: captions_main_def init_log_def log_summary_def Let_def caption_loop_dry
      split: sum.splits)

lemma captions_main_abort:
  assumes "credentials_ok cfg" and "loadMigrationResults (results_file w) = Inl e"
  shows "snd (captions_main cfg rem w) = Inl e \<and>
         caption_calls (fst (captions_main cfg rem w)) = caption_calls w \<and>
         results_file (fst (captions_main cfg rem w)) = results_file w"
  using assms
  by (simp add: captions_main_def credentials_ok_def Let_def init_log_frame)





section \<open>Migration engine: resume, dry run, ledger and summary\<close>



text \<open>
  C9. The set of completed ids is computed from the loaded ledger before the loop and
  never extended: for every id that is not marked Success in the loaded ledger, the
  records submitted with that id are all the eligible records with that id, in manifest
  order, whatever the endpoint answered for the earlier ones. In particular two records
  with the same id are both submitted in the same run.
\<close>

theorem skip_set_frozen:
  assumes cred: "credentials_ok cfg" and live: "\<not> DRY_RUN cfg"
    and man: "manifest w = Manifest records"
    and load: "loadPreviousResults (results_file w) = Entries prev"
    and x: "x \<notin> alreadyMigrated_of prev"
  shows "filter (\<lambda>v. v_spotlightrId v = x) (new_calls w (fst (migrate_main cfg rem w))) =
         filter (\<lambda>v. v_spotlightrId v = x) (extractMigratableVideos cfg records)"
proof (cases "extractMigratableVideos cfg records = []")
  case True
  with migrate_main_nothing [OF cred man True, of rem] show ?thesis
    by (simp add: new_calls_def)
next
  case False
  let ?A = "alreadyMigrated_of prev"
  let ?vs = "extractMigratableVideos cfg records"
  have "submit_calls (fst (migrate_main cfg rem w)) = submit_calls w @ pending ?A ?vs"
    using migrate_main_run [OF cred man False load, of rem]
      migrate_loop_calls [OF live, of rem ?A ?vs "initial_state w prev"]
    by (simp add: initial_state_sel)
  then have "new_calls w (fst (migrate_main cfg rem w)) = pending ?A ?vs"
    by (simp add: new_calls_def)
  moreover have "filter (\<lambda>v. v_spotlightrId v = x) (pending ?A ?vs) =
                 filter (\<lambda>v. v_spotlightrId v = x) ?vs"
    using x by (auto simp: pending_def intro: filter_cong)
  ultimately show ?thesis by simp
qed

theorem skip_set_frozen_witness:
  "js ''1'' \<notin> alreadyMigrated_of [] \<and>
   extractMigratableVideos cfg_live [row_a, row_a] = [video_a, video_a] \<and>
   filter (\<lambda>v. v_spotlightrId v = js ''1'')
     (new_calls world_twice (fst (migrate_main cfg_live remote_ok world_twice))) = [video_a, video_a] \<and>
   results_file (fst (migrate_main cfg_live remote_ok world_twice)) =
     Entries [success_entry video_a (js ''u1'') (js ''2025-01-15T10:30:00.000Z''),
              success_entry video_a (js ''u1'') (js ''2025-01-15T10:30:00.000Z'')]"
proof -
  have cred: "credentials_ok cfg_live" by code_simp
  have live: "\<not> DRY_RUN cfg_live" by (simp add: cfg_live_def)
  have man: "manifest world_twice = Manifest [row_a, row_a]"
    by (simp add: world_twice_def)
  have load: "loadPreviousResults (results_file world_twice) = Entries []"
    by (simp add: world_twice_def world_scenario_def loadPreviousResults_def)
  have x: "js ''1'' \<notin> alreadyMigrated_of []" by (simp add: alreadyMigrated_of_def)
  have vs: "extractMigratableVideos cfg_live [row_a, row_a] = [video_a, video_a]" by code_simp
  have f: "filter (\<lambda>v. v_spotlightrId v = js ''1'') [video_a, video_a] = [video_a, video_a]"
    by code_simp
  have r: "results_file (fst (migrate_main cfg_live remote_ok world_twice)) =
     Entries [success_entry video_a (js ''u1'') (js ''2025-01-15T10:30:00.000Z''),
              success_entry video_a (js ''u1'') (js ''2025-01-15T10:30:00.000Z'')]"
    by code_simp
  from skip_set_frozen [OF cred live man load x, of remote_ok] vs f
  have "filter (\<lambda>v. v_spotlightrId v = js ''1'')
     (new_calls world_twice (fst (migrate_main cfg_live remote_ok world_twice))) = [video_a, video_a]"
    by simp
  with x vs r show ?thesis by (intro conjI)
qed

text \<open>
  C2. With dry-run enabled neither tool changes the world: the traces of
  \<open>uploadToCloudflare\<close> and \<open>uploadCaption\<close> invocations, the ledger file and the
  log file after the run are those before it, whatever the manifest, the ledger and
  the log were, and also when the run ends in a fatal error.
\<close>

theorem dry_run_pure:
  assumes "DRY_RUN cfg"
  shows "fst (migrate_main cfg rem w) = w \<and> fst (captions_main cfg rem w) = w \<and>
    submit_calls (fst (migrate_main cfg rem w)) = submit_calls w \<and>
    results_file (fst (migrate_main cfg rem w)) = results_file w \<and>
    caption_calls (fst (captions_main cfg rem w)) = caption_calls w \<and>
    results_file (fst (captions_main cfg rem w)) = results_file w \<and>
    log_file (fst (captions_main cfg rem w)) = log_file w"
  using assms by (simp add: migrate_main_dry captions_main_dry)

theorem dry_run_pure_witness:
  "DRY_RUN cfg_dry \<and>
   fst (migrate_main cfg_dry remote_ok world_resume) = world_resume \<and>
   snd (migrate_main cfg_dry remote_ok world_resume) =
     Inr (Some \<lparr>s_success = 1, s_skipped = 1, s_failed = 0, s_total = 2\<rparr>) \<and>
   fst (captions_main cfg_dry remote_ok world_captions) = world_captions \<and>
   snd (captions_main cfg_dry remote_ok world_captions) =
     Inr (Some \<lparr>c_success = 2, c_failed = 0, c_unmatched = 1, c_total = 3\<rparr>)"
proof -
  have d: "DRY_RUN cfg_dry" by (simp add: cfg_dry_def)
  have a: "snd (migrate_main cfg_dry remote_ok world_resume) =
     Inr (Some \<lparr>s_success = 1, s_skipped = 1, s_failed = 0, s_total = 2\<rparr>)"
    by code_simp
  have b: "snd (captions_main cfg_dry remote_ok world_captions) =
     Inr (Some \<lparr>c_success = 2, c_failed = 0, c_unmatched = 1, c_total = 3\<rparr>)"
    by code_simp
  from dry_run_pure [OF d, of remote_ok world_resume] dry_run_pure [OF d, of remote_ok world_captions]
    d a b
  show ?thesis by simp
qed

text \<open>
  C3, as stated: recording overwrites the entry of the same id, so the ledger holds at
  most one entry per id. It does not: an entry is always appended. With a ledger
  holding a failed entry for id 1 and an endpoint that rejects the retry, the file
  written holds two entries with id 1.
\<close>

theorem ledger_unique_counterexample:
  "results_file (fst (migrate_main cfg_live remote_rejecting world_failed_before)) =
     Entries [failed_before,
              failure_entry video_a (js ''Bad Request'') (js ''2025-01-15T10:30:00.000Z'')] \<and>
   spotlightrId failed_before = js ''1'' \<and>
   spotlightrId (failure_entry video_a (js ''Bad Request'') (js ''2025-01-15T10:30:00.000Z'')) = js ''1''"
proof -
  have 1: "results_file (fst (migrate_main cfg_live remote_rejecting world_failed_before)) =
     Entries [failed_before,
              failure_entry video_a (js ''Bad Request'') (js ''2025-01-15T10:30:00.000Z'')]"
    by code_simp
  have 2: "spotlightrId failed_before = js ''1''" by code_simp
  have 3: "spotlightrId (failure_entry video_a (js ''Bad Request'') (js ''2025-01-15T10:30:00.000Z'')) = js ''1''"
    by code_simp
  from 1 2 3 show ?thesis by (intro conjI)
qed

text \<open>
  C3, amended. In a run with dry-run off: no record whose id is marked Success in the
  loaded ledger is submitted, and every eligible record whose id is not so marked (an
  id with only failed entries, or with none) is submitted; if anything was submitted
  the file written is the loaded ledger followed by one new entry per submitted record,
  so the earlier entries, failed ones included, stay where they were and an id can
  have several entries; if nothing was submitted the file is not written.
\<close>

theorem ledger_append_only:
  assumes cred: "credentials_ok cfg" and live: "\<not> DRY_RUN cfg"
    and man: "manifest w = Manifest records"
    and load: "loadPreviousResults (results_file w) = Entries prev"
    and vs: "videos = extractMigratableVideos cfg records"
    and A: "A = alreadyMigrated_of prev"
  shows "(\<forall>v \<in> set (new_calls w (fst (migrate_main cfg rem w))). v_spotlightrId v \<notin> A) \<and>
    (\<forall>v \<in> set videos. v_spotlightrId v \<notin> A \<longrightarrow> v \<in> set (new_calls w (fst (migrate_main cfg rem w)))) \<and>
    (pending A videos \<noteq> [] \<longrightarrow>
       (\<exists>new. results_file (fst (migrate_main cfg rem w)) = Entries (prev @ new) \<and>
              map spotlightrId new = map v_spotlightrId (pending A videos))) \<and>
    (pending A videos = [] \<longrightarrow> results_file (fst (migrate_main cfg rem w)) = results_file w)"
proof (cases "videos = []")
  case True
  then have "migrate_main cfg rem w = (w, Inr None)"
    using migrate_main_nothing [OF cred man, of rem] vs by simp
  with True show ?thesis by (simp add: new_calls_def pending_def)
next
  case False
  then have ne: "extractMigratableVideos cfg records \<noteq> []" using vs by simp
  have "submit_calls (fst (migrate_main cfg rem w)) = submit_calls w @ pending A videos"
    using migrate_main_live(1) [OF cred live man ne load, of rem] vs A by simp
  then have nc: "new_calls w (fst (migrate_main cfg rem w)) = pending A videos"
    by (simp add: new_calls_def)
  from migrate_main_live(2) [OF cred live man ne load, of rem] vs A
  obtain new where new: "map spotlightrId new = map v_spotlightrId (pending A videos)"
    "results_file (fst (migrate_main cfg rem w)) =
       (if pending A videos = [] then results_file w else Entries (prev @ new))"
    by auto
  have 1: "\<forall>v \<in> set (new_calls w (fst (migrate_main cfg rem w))). v_spotlightrId v \<notin> A"
    using nc by (simp add: pending_def)
  have 2: "\<forall>v \<in> set videos. v_spotlightrId v \<notin> A \<longrightarrow>
             v \<in> set (new_calls w (fst (migrate_main cfg rem w)))"
    using nc by (simp add: pending_def)
  have 3: "pending A videos \<noteq> [] \<longrightarrow>
       (\<exists>new. results_file (fst (migrate_main cfg rem w)) = Entries (prev @ new) \<and>
              map spotlightrId new = map v_spotlightrId (pending A videos))"
    using new by auto
  have 4: "pending A videos = [] \<longrightarrow> results_file (fst (migrate_main cfg rem w)) = results_file w"
    using new by simp
  from 1 2 3 4 show ?thesis by (intro conjI)
qed

theorem ledger_append_only_witness:
  "\<not> success failed_before \<and>
   video_a \<in> set (new_calls world_failed_before
                    (fst (migrate_main cfg_live remote_rejecting world_failed_before))) \<and>
   results_file (fst (migrate_main cfg_live remote_rejecting world_failed_before)) =
     Entries ([failed_before] @
              [failure_entry video_a (js ''Bad Request'') (js ''2025-01-15T10:30:00.000Z'')])"
proof -
  have cred: "credentials_ok cfg_live" by code_simp
  have live: "\<not> DRY_RUN cfg_live" by (simp add: cfg_live_def)
  have man: "manifest world_failed_before = Manifest [row_a, row_b]"
    by (simp add: world_failed_before_def world_scenario_def)
  have load: "loadPreviousResults (results_file world_failed_before) = Entries [failed_before]"
    by (simp add: world_failed_before_def loadPreviousResults_def)
  have vs: "[video_a] = extractMigratableVideos cfg_live [row_a, row_b]" by code_simp
  have f: "\<not> success failed_before" by code_simp
  have x: "v_spotlightrId video_a \<notin> alreadyMigrated_of [failed_before]" by code_simp
  note main = ledger_append_only [OF cred live man load vs refl, of remote_rejecting]
  from main x
  have 1: "video_a \<in> set (new_calls world_failed_before
                    (fst (migrate_main cfg_live remote_rejecting world_failed_before)))"
    by simp
  have 2: "results_file (fst (migrate_main cfg_live remote_rejecting world_failed_before)) =
     Entries ([failed_before] @
              [failure_entry video_a (js ''Bad Request'') (js ''2025-01-15T10:30:00.000Z'')])"
    by code_simp
  from f 1 2 show ?thesis by (intro conjI)
qed




text \<open>
  C8, as stated: a missing ledger loads as the empty sequence, an unparsable one fails
  with an error given to the caller, and every tool applies the same policy. The two
  tools differ: on the same unparsable file migrate.js runs on as with an empty ledger,
  and upload-captions.js ends with a fatal error; on a missing file migrate.js loads
  the empty sequence and upload-captions.js ends with a fatal error.
\<close>

theorem ledger_load_counterexample:
  "loadPreviousResults (results_file world_corrupt) = Entries [] \<and>
   snd (migrate_main cfg_live remote_ok world_corrupt) =
     Inr (Some \<lparr>s_success = 1, s_skipped = 0, s_failed = 0, s_total = 1\<rparr>) \<and>
   snd (captions_main cfg_live remote_ok world_corrupt) = Inl LedgerSyntaxError \<and>
   loadPreviousResults (results_file world_scenario) = Entries [] \<and>
   snd (captions_main cfg_live remote_ok world_scenario) = Inl LedgerNotFound"
proof -
  have 1: "loadPreviousResults (results_file world_corrupt) = Entries []" by code_simp
  have 2: "snd (migrate_main cfg_live remote_ok world_corrupt) =
     Inr (Some \<lparr>s_success = 1, s_skipped = 0, s_failed = 0, s_total = 1\<rparr>)"
    by code_simp
  have 3: "snd (captions_main cfg_live remote_ok world_corrupt) = Inl LedgerSyntaxError"
    by code_simp
  have 4: "loadPreviousResults (results_file world_scenario) = Entries []" by code_simp
  have 5: "snd (captions_main cfg_live remote_ok world_scenario) = Inl LedgerNotFound"
    by code_simp
  from 1 2 3 4 5 show ?thesis by (intro conjI)
qed

text \<open>
  C8, amended. When the ledger file is missing or cannot be parsed,
  \<open>loadPreviousResults\<close> of migrate.js returns the empty sequence and no error: a run
  with dry-run off then submits every eligible record, replaces the file by the new
  entries and ends with a summary. In the same two cases upload-captions.js ends with
  a fatal error (one for the missing file, one for the parse error), uploads nothing
  and leaves the ledger file as it was.
\<close>

theorem ledger_load_policy:
  assumes cred: "credentials_ok cfg"
    and bad: "results_file w = NoFile \<or> results_file w = Unparsable t"
  shows "loadPreviousResults (results_file w) = Entries [] \<and>
    (\<not> DRY_RUN cfg \<and> manifest w = Manifest records \<and> extractMigratableVideos cfg records \<noteq> [] \<longrightarrow>
       submit_calls (fst (migrate_main cfg rem w)) =
         submit_calls w @ extractMigratableVideos cfg records \<and>
       (\<exists>new s. results_file (fst (migrate_main cfg rem w)) = Entries new \<and>
          map spotlightrId new = map v_spotlightrId (extractMigratableVideos cfg records) \<and>
          snd (migrate_main cfg rem w) = Inr (Some s))) \<and>
    snd (captions_main cfg rem w) =
      Inl (if results_file w = NoFile then LedgerNotFound else LedgerSyntaxError) \<and>
    caption_calls (fst (captions_main cfg rem w)) = caption_calls w \<and>
    results_file (fst (captions_main cfg rem w)) = results_file w"
proof -
  have load: "loadPreviousResults (results_file w) = Entries []"
    using bad by (auto simp: loadPreviousResults_def)
  have A: "alreadyMigrated_of [] = {}" by (simp add: alreadyMigrated_of_def)
  have mig: "\<not> DRY_RUN cfg \<and> manifest w = Manifest records \<and>
       extractMigratableVideos cfg records \<noteq> [] \<longrightarrow>
       submit_calls (fst (migrate_main cfg rem w)) =
         submit_calls w @ extractMigratableVideos cfg records \<and>
       (\<exists>new s. results_file (fst (migrate_main cfg rem w)) = Entries new \<and>
          map spotlightrId new = map v_spotlightrId (extractMigratableVideos cfg records) \<and>
          snd (migrate_main cfg rem w) = Inr (Some s))"
  proof (intro impI, elim conjE)
    assume live: "\<not> DRY_RUN cfg" and man: "manifest w = Manifest records"
      and ne: "extractMigratableVideos cfg records \<noteq> []"
    have 1: "submit_calls (fst (migrate_main cfg rem w)) =
         submit_calls w @ extractMigratableVideos cfg records"
      using migrate_main_live(1) [OF cred live man ne load, of rem]
      by (simp add: A pending_empty_set)
    from migrate_main_live(2) [OF cred live man ne load, of rem] ne
    obtain new where "map spotlightrId new = map v_spotlightrId (extractMigratableVideos cfg records)"
      "results_file (fst (migrate_main cfg rem w)) = Entries new"
      by (auto simp: A pending_empty_set)
    moreover have "\<exists>s. snd (migrate_main cfg rem w) = Inr (Some s)"
      using migrate_main_run [OF cred man ne load, of rem] by simp
    ultimately show "submit_calls (fst (migrate_main cfg rem w)) =
         submit_calls w @ extractMigratableVideos cfg records \<and>
       (\<exists>new s. results_file (fst (migrate_main cfg rem w)) = Entries new \<and>
          map spotlightrId new = map v_spotlightrId (extractMigratableVideos cfg records) \<and>
          snd (migrate_main cfg rem w) = Inr (Some s))"
      using 1 by blast
  qed
  have "loadMigrationResults (results_file w) =
      Inl (if results_file w = NoFile then LedgerNotFound else LedgerSyntaxError)"
    using bad by (auto simp: loadMigrationResults_def)
  from captions_main_abort [OF cred this, of rem] load mig show ?thesis by blast
qed

theorem ledger_load_policy_witness:
  "submit_calls (fst (migrate_main cfg_live remote_ok world_corrupt)) = [video_a] \<and>
   results_file (fst (migrate_main cfg_live remote_ok world_corrupt)) =
     Entries [success_entry video_a (js ''u1'') (js ''2025-01-15T10:30:00.000Z'')] \<and>
   snd (captions_main cfg_live remote_ok world_corrupt) = Inl LedgerSyntaxError \<and>
   caption_calls (fst (captions_main cfg_live remote_ok world_corrupt)) = []"
proof -
  have cred: "credentials_ok cfg_live" by code_simp
  have bad: "results_file world_corrupt = NoFile \<or> results_file world_corrupt = Unparsable (js ''[{'')"
    by (simp add: world_corrupt_def)
  have live: "\<not> DRY_RUN cfg_live" by (simp add: cfg_live_def)
  have man: "manifest world_corrupt = Manifest [row_a, row_b]"
    by (simp add: world_corrupt_def world_scenario_def)
  have vs: "extractMigratableVideos cfg_live [row_a, row_b] = [video_a]" by code_simp
  have nf: "results_file world_corrupt \<noteq> NoFile" by (simp add: world_corrupt_def)
  have nc: "submit_calls world_corrupt = []" "caption_calls world_corrupt = []"
    by (simp_all add: world_corrupt_def world_scenario_def)
  have r: "results_file (fst (migrate_main cfg_live remote_ok world_corrupt)) =
     Entries [success_entry video_a (js ''u1'') (js ''2025-01-15T10:30:00.000Z'')]"
    by code_simp
  note main = ledger_load_policy [OF cred bad, of "[row_a, row_b]" remote_ok]
  from main live man vs nc(1)
  have 1: "submit_calls (fst (migrate_main cfg_live remote_ok world_corrupt)) = [video_a]"
    by simp
  from main nf
  have 3: "snd (captions_main cfg_live remote_ok world_corrupt) = Inl LedgerSyntaxError"
    by simp
  from main nc(2)
  have 4: "caption_calls (fst (captions_main cfg_live remote_ok world_corrupt)) = []"
    by simp
  from 1 r 3 4 show ?thesis by (intro conjI)
qed

end
